theory Spec2Isabelle
  imports Complex_Main
begin

section \<open>The save endpoint of the household finance tracker (src/src/save.ts)\<close>

text \<open>
  A shallow embedding of \<^verbatim>\<open>handlePostMonthly\<close> and of the functions it calls.
  Strings are byte strings (UTF-8); the only operations of the source on strings are
  equality, the prefix test and two regular expressions over ASCII, which read the same
  on bytes and on UTF-16 code units. A JSON number is the exact value of the double the
  parser produced; the one sum the handler computes on such a number is rounded as doubles
  are. The 64-bit range of an SQLite integer is outside the model.
\<close>

subsection \<open>Parsed JSON values and the JavaScript tests the source applies to them\<close>

datatype json =
    JNull
  | JBool bool
  | JNum rat
  | JStr string
  | JArr "json list"
  | JObj "(string \<times> json) list"

text \<open>Property access \<^verbatim>\<open>o.k\<close>: \<open>None\<close> is \<^verbatim>\<open>undefined\<close>. A \<open>JObj\<close> lists the
  properties of a parsed object, each name once. The property names the source reads are
  never own properties of an array.\<close>

fun getProp :: "json \<Rightarrow> string \<Rightarrow> json option" where
  "getProp (JObj kvs) k = map_of kvs k"
| "getProp _ k = None"

text \<open>\<^verbatim>\<open>!v\<close> is false exactly for the truthy values.\<close>

fun truthy :: "json option \<Rightarrow> bool" where
  "truthy None = False"
| "truthy (Some JNull) = False"
| "truthy (Some (JBool b)) = b"
| "truthy (Some (JNum x)) = (x \<noteq> 0)"
| "truthy (Some (JStr s)) = (s \<noteq> [])"
| "truthy (Some (JArr xs)) = True"
| "truthy (Some (JObj kvs)) = True"

text \<open>\<^verbatim>\<open>!v || typeof v !== "object"\<close> is false exactly for objects and arrays.\<close>

fun isObject :: "json option \<Rightarrow> bool" where
  "isObject (Some (JArr xs)) = True"
| "isObject (Some (JObj kvs)) = True"
| "isObject _ = False"

text \<open>\<^verbatim>\<open>Number.isInteger\<close>.\<close>

definition isInteger :: "rat \<Rightarrow> bool" where
  "isInteger x = (of_int \<lfloor>x\<rfloor> = x)"

subsection \<open>Constants\<close>

definition isDigit :: "char \<Rightarrow> bool" where
  "isDigit c = (c \<in> set ''0123456789'')"

text \<open>\<^verbatim>\<open>(0[1-9]|1[0-2])\<close>\<close>

definition monthPart :: "char \<Rightarrow> char \<Rightarrow> bool" where
  "monthPart a b =
     ((a = CHR ''0'' \<and> b \<in> set ''123456789'') \<or> (a = CHR ''1'' \<and> b \<in> set ''012''))"

text \<open>\<^verbatim>\<open>(0[1-9]|[12]\d|3[01])\<close>\<close>

definition dayPart :: "char \<Rightarrow> char \<Rightarrow> bool" where
  "dayPart a b =
     ((a = CHR ''0'' \<and> b \<in> set ''123456789'') \<or> (a \<in> set ''12'' \<and> isDigit b)
      \<or> (a = CHR ''3'' \<and> b \<in> set ''01''))"

text \<open>\<^verbatim>\<open>/^\d{4}-(0[1-9]|1[0-2])$/\<close>\<close>

definition MONTH_KEY_RE :: "string \<Rightarrow> bool" where
  "MONTH_KEY_RE s =
     (case s of
        [y1, y2, y3, y4, h, m1, m2] \<Rightarrow>
          isDigit y1 \<and> isDigit y2 \<and> isDigit y3 \<and> isDigit y4 \<and> h = CHR ''-'' \<and> monthPart m1 m2
      | _ \<Rightarrow> False)"

text \<open>\<^verbatim>\<open>/^\d{4}-(0[1-9]|1[0-2])-(0[1-9]|[12]\d|3[01])$/\<close>\<close>

definition DATE_RE :: "string \<Rightarrow> bool" where
  "DATE_RE s =
     (case s of
        [y1, y2, y3, y4, h, m1, m2, h', d1, d2] \<Rightarrow>
          isDigit y1 \<and> isDigit y2 \<and> isDigit y3 \<and> isDigit y4 \<and> h = CHR ''-'' \<and> monthPart m1 m2
          \<and> h' = CHR ''-'' \<and> dayPart d1 d2
      | _ \<Rightarrow> False)"

definition VALID_TYPES :: "string list" where
  "VALID_TYPES = [''expense'', ''income'']"

text \<open>The five payment methods of the source, as UTF-8: genkin, kureka, ginkou-hikiotoshi,
  QR, sonota.\<close>

definition VALID_PAYMENT_METHODS :: "string list" where
  "VALID_PAYMENT_METHODS =
     [[CHR 0xE7, CHR 0x8F, CHR 0xBE, CHR 0xE9, CHR 0x87, CHR 0x91],
      [CHR 0xE3, CHR 0x82, CHR 0xAF, CHR 0xE3, CHR 0x83, CHR 0xAC, CHR 0xE3, CHR 0x82, CHR 0xAB],
      [CHR 0xE9, CHR 0x8A, CHR 0x80, CHR 0xE8, CHR 0xA1, CHR 0x8C, CHR 0xE5, CHR 0xBC, CHR 0x95,
       CHR 0xE8, CHR 0x90, CHR 0xBD],
      ''QR'',
      [CHR 0xE3, CHR 0x81, CHR 0x9D, CHR 0xE3, CHR 0x81, CHR 0xAE, CHR 0xE4, CHR 0xBB, CHR 0x96]]"

subsection \<open>Request types\<close>

record CreateEntry =
  ce_entry_id :: "string option"
  ce_date :: string
  ce_type :: string
  ce_amount :: int
  ce_category_id :: string
  ce_memo :: "string option"
  ce_payment_method :: "string option"

record UpdateEntry =
  ue_entry_id :: string
  ue_date :: string
  ue_type :: string
  ue_amount :: int
  ue_category_id :: string
  ue_memo :: "string option"
  ue_payment_method :: "string option"

record UpsertDailyBudget =
  ub_date :: string
  ub_daily_budget_override :: int

record SaveRequest =
  sr_month_key :: string
  sr_expected_version :: int
  sr_ops :: json

subsection \<open>Response types\<close>

record Applied =
  created_entries :: nat
  updated_entries :: nat
  deleted_entries :: nat
  upserted_daily_budgets :: nat
  deleted_daily_budgets :: nat

datatype body =
    ErrorBody string
  | ConflictBody string string
  | SaveResponse string int Applied

record Response =
  status :: nat
  payload :: body

definition errorResponse :: "nat \<Rightarrow> string \<Rightarrow> Response" where
  "errorResponse st message = \<lparr>status = st, payload = ErrorBody message\<rparr>"

definition jsonResponse :: "nat \<Rightarrow> body \<Rightarrow> Response" where
  "jsonResponse st b = \<lparr>status = st, payload = b\<rparr>"

subsection \<open>Editable month range\<close>

text \<open>What the handler reads from its environment: the local wall clock
  (\<^verbatim>\<open>getFullYear\<close>, \<^verbatim>\<open>getMonth\<close> counted from 0, \<^verbatim>\<open>getDate\<close>), the timestamp
  \<^verbatim>\<open>new Date().toISOString().replace("T", " ").slice(0, 19)\<close>, and the results of the
  successive calls of \<^verbatim>\<open>crypto.randomUUID()\<close>.\<close>

record Env =
  nowFullYear :: int
  nowMonth :: int
  nowDate :: int
  nowIso :: string
  randomUUID :: "nat \<Rightarrow> string"

text \<open>\<^verbatim>\<open>String(n)\<close> for an integer.\<close>

fun digitsOf :: "nat \<Rightarrow> string" where
  "digitsOf n =
     (if n < 10 then [''0123456789'' ! n] else digitsOf (n div 10) @ [''0123456789'' ! (n mod 10)])"

declare digitsOf.simps [simp del]

definition StringOfInt :: "int \<Rightarrow> string" where
  "StringOfInt i = (if i < 0 then CHR ''-'' # digitsOf (nat (- i)) else digitsOf (nat i))"

text \<open>\<^verbatim>\<open>s.padStart(2, "0")\<close>\<close>

definition padStart2 :: "string \<Rightarrow> string" where
  "padStart2 s = replicate (2 - length s) CHR ''0'' @ s"

text \<open>\<^verbatim>\<open>new Date(y, monthIndex, 1)\<close> read back with \<^verbatim>\<open>getFullYear\<close> and
  \<^verbatim>\<open>getMonth\<close>: the month index overflows into the year, and a year from 0 to 99
  means 1900 + year.\<close>

definition DateYM :: "int \<Rightarrow> int \<Rightarrow> int \<times> int" where
  "DateYM y monthIndex =
     (let y' = (if 0 \<le> y \<and> y \<le> 99 then 1900 + y else y)
      in (y' + monthIndex div 12, monthIndex mod 12))"

definition monthKeyAt :: "Env \<Rightarrow> int \<Rightarrow> string" where
  "monthKeyAt env i =
     (let y = nowFullYear env;
          m = nowMonth env + 1;
          d = DateYM y (m - 1 - i)
      in StringOfInt (fst d) @ ''-'' @ padStart2 (StringOfInt (snd d + 1)))"

definition getEditableMonthKeys :: "Env \<Rightarrow> string list" where
  "getEditableMonthKeys env = map (monthKeyAt env) [0, 1, 2, 3, 4, 5]"

definition startsWith :: "string \<Rightarrow> string \<Rightarrow> bool" where
  "startsWith s p = (take (length p) s = p)"

definition dateMatchesMonthKey :: "string \<Rightarrow> string \<Rightarrow> bool" where
  "dateMatchesMonthKey d monthKey = startsWith d (monthKey @ ''-'')"

subsection \<open>Validation\<close>

definition validateBody :: "json \<Rightarrow> string + SaveRequest" where
  "validateBody b =
     (if \<not> isObject (Some b) then Inl ''Invalid request body.''
      else case getProp b ''month_key'' of
        Some (JStr mk) \<Rightarrow>
          (if \<not> MONTH_KEY_RE mk then Inl ''month_key must be in YYYY-MM format.''
           else case getProp b ''expected_version'' of
             Some (JNum v) \<Rightarrow>
               (if \<not> isInteger v \<or> v < 0 then Inl ''expected_version must be a non-negative integer.''
                else if \<not> isObject (getProp b ''ops'') then Inl ''ops is required.''
                else case getProp b ''ops'' of
                  Some ops \<Rightarrow> Inr \<lparr>sr_month_key = mk, sr_expected_version = \<lfloor>v\<rfloor>, sr_ops = ops\<rparr>
                | None \<Rightarrow> Inl ''ops is required.'')
           | _ \<Rightarrow> Inl ''expected_version must be a non-negative integer.'')
      | _ \<Rightarrow> Inl ''month_key must be in YYYY-MM format.'')"

text \<open>\<^verbatim>\<open>typeof v === "string" ? v : null\<close>\<close>

fun stringOrNull :: "json option \<Rightarrow> string option" where
  "stringOrNull (Some (JStr s)) = Some s"
| "stringOrNull _ = None"

text \<open>\<^verbatim>\<open>v !== undefined && v !== null\<close>\<close>

fun present :: "json option \<Rightarrow> bool" where
  "present None = False"
| "present (Some JNull) = False"
| "present _ = True"

definition dateMismatch :: "string \<Rightarrow> string \<Rightarrow> string" where
  "dateMismatch d monthKey = ''date '' @ d @ '' does not match month_key '' @ monthKey @ ''.''"

definition validateCreateEntry :: "json \<Rightarrow> string \<Rightarrow> string + CreateEntry" where
  "validateCreateEntry e monthKey =
     (if \<not> isObject (Some e) then Inl ''Invalid entry object.''
      else if present (getProp e ''entry_id'') \<and> stringOrNull (getProp e ''entry_id'') = None
        then Inl ''entry_id must be a string if provided.''
      else case getProp e ''date'' of
        Some (JStr d) \<Rightarrow>
          (if \<not> DATE_RE d then Inl ''date must be YYYY-MM-DD.''
           else if \<not> dateMatchesMonthKey d monthKey then Inl (dateMismatch d monthKey)
           else case getProp e ''type'' of
             Some (JStr t) \<Rightarrow>
               (if t \<notin> set VALID_TYPES then Inl ''type must be 'expense' or 'income'.''
                else case getProp e ''amount'' of
                  Some (JNum a) \<Rightarrow>
                    (if \<not> isInteger a \<or> a \<le> 0 then Inl ''amount must be a positive integer.''
                     else case getProp e ''category_id'' of
                       Some (JStr c) \<Rightarrow>
                         (if c = [] then Inl ''category_id is required.''
                          else if present (getProp e ''payment_method'')
                                  \<and> (case getProp e ''payment_method'' of
                                        Some (JStr p) \<Rightarrow> p \<notin> set VALID_PAYMENT_METHODS
                                      | _ \<Rightarrow> True)
                            then Inl ''Invalid payment_method.''
                          else Inr \<lparr>ce_entry_id = stringOrNull (getProp e ''entry_id''),
                                    ce_date = d, ce_type = t, ce_amount = \<lfloor>a\<rfloor>,
                                    ce_category_id = c,
                                    ce_memo = stringOrNull (getProp e ''memo''),
                                    ce_payment_method = stringOrNull (getProp e ''payment_method'')\<rparr>)
                     | _ \<Rightarrow> Inl ''category_id is required.'')
                | _ \<Rightarrow> Inl ''amount must be a positive integer.'')
           | _ \<Rightarrow> Inl ''type must be 'expense' or 'income'.'')
      | _ \<Rightarrow> Inl ''date must be YYYY-MM-DD.'')"

definition validateUpdateEntry :: "json \<Rightarrow> string \<Rightarrow> string + UpdateEntry" where
  "validateUpdateEntry e monthKey =
     (if \<not> isObject (Some e) then Inl ''Invalid entry object.''
      else case getProp e ''entry_id'' of
        Some (JStr i) \<Rightarrow>
          (if i = [] then Inl ''entry_id is required for update.''
           else case validateCreateEntry e monthKey of
             Inl msg \<Rightarrow> Inl msg
           | Inr base \<Rightarrow>
               Inr \<lparr>ue_entry_id = i, ue_date = ce_date base, ue_type = ce_type base,
                    ue_amount = ce_amount base, ue_category_id = ce_category_id base,
                    ue_memo = ce_memo base, ue_payment_method = ce_payment_method base\<rparr>)
      | _ \<Rightarrow> Inl ''entry_id is required for update.'')"

definition validateUpsertDailyBudget :: "json \<Rightarrow> string \<Rightarrow> string + UpsertDailyBudget" where
  "validateUpsertDailyBudget d monthKey =
     (if \<not> isObject (Some d) then Inl ''Invalid daily_budget object.''
      else case getProp d ''date'' of
        Some (JStr dt) \<Rightarrow>
          (if \<not> DATE_RE dt then Inl ''date must be YYYY-MM-DD.''
           else if \<not> dateMatchesMonthKey dt monthKey then Inl (dateMismatch dt monthKey)
           else case getProp d ''daily_budget_override'' of
             Some (JNum v) \<Rightarrow>
               (if \<not> isInteger v \<or> v < 0
                  then Inl ''daily_budget_override must be a non-negative integer.''
                else Inr \<lparr>ub_date = dt, ub_daily_budget_override = \<lfloor>v\<rfloor>\<rparr>)
           | _ \<Rightarrow> Inl ''daily_budget_override must be a non-negative integer.'')
      | _ \<Rightarrow> Inl ''date must be YYYY-MM-DD.'')"

subsection \<open>The database (src/unnamed/part_001, the schema) and the statements of the batch\<close>

text \<open>A table is the list of its rows. The schema's primary keys and foreign keys are
  checked where a statement inserts or updates a row; a statement that violates one fails.\<close>

record UserRow =
  u_user_id :: string
  u_created_at :: string

record MonthRow =
  m_user_id :: string
  m_month_key :: string
  m_version :: int
  m_monthly_budget :: "int option"
  m_cutoff_type :: string
  m_cutoff_day :: "int option"
  m_updated_at :: string

record CategoryRow =
  c_category_id :: string
  c_user_id :: string
  c_name :: string
  c_kind :: string
  c_is_active :: int
  c_sort_order :: "int option"
  c_created_at :: string
  c_updated_at :: string

record EntryRow =
  e_entry_id :: string
  e_user_id :: string
  e_month_key :: string
  e_date :: string
  e_type :: string
  e_amount :: int
  e_category_id :: string
  e_memo :: "string option"
  e_payment_method :: "string option"
  e_created_at :: string
  e_updated_at :: string

record DailyBudgetRow =
  d_user_id :: string
  d_month_key :: string
  d_date :: string
  d_daily_budget_override :: int
  d_created_at :: string
  d_updated_at :: string

record D1Database =
  users :: "UserRow list"
  months :: "MonthRow list"
  categories :: "CategoryRow list"
  entries :: "EntryRow list"
  daily_budgets :: "DailyBudgetRow list"

text \<open>The seven prepared statements of the source, each with its bound values in the
  order of \<^verbatim>\<open>bind\<close>.\<close>

datatype Stmt =
    InsertMonthIfMissing string string string
  | BumpVersion string string string int
  | InsertEntry "string option" string string string string int string "string option"
      "string option" string string
  | UpdateEntryRow string string int string "string option" "string option" string string string
      string
  | DeleteEntryRow string string string
  | UpsertBudget string string string int string string
  | DeleteBudget string string string

definition hasUser :: "D1Database \<Rightarrow> string \<Rightarrow> bool" where
  "hasUser db u = (u \<in> set (map u_user_id (users db)))"

definition isMonth :: "string \<Rightarrow> string \<Rightarrow> MonthRow \<Rightarrow> bool" where
  "isMonth u mk r = (m_user_id r = u \<and> m_month_key r = mk)"

definition hasMonth :: "D1Database \<Rightarrow> string \<Rightarrow> string \<Rightarrow> bool" where
  "hasMonth db u mk = (filter (isMonth u mk) (months db) \<noteq> [])"

definition hasCategory :: "D1Database \<Rightarrow> string \<Rightarrow> bool" where
  "hasCategory db c = (c \<in> set (map c_category_id (categories db)))"

definition isEntry :: "string \<Rightarrow> string \<Rightarrow> string \<Rightarrow> EntryRow \<Rightarrow> bool" where
  "isEntry i u mk r = (e_entry_id r = i \<and> e_user_id r = u \<and> e_month_key r = mk)"

definition isBudget :: "string \<Rightarrow> string \<Rightarrow> string \<Rightarrow> DailyBudgetRow \<Rightarrow> bool" where
  "isBudget u mk d r = (d_user_id r = u \<and> d_month_key r = mk \<and> d_date r = d)"

definition bump :: "string \<Rightarrow> string \<Rightarrow> string \<Rightarrow> int \<Rightarrow> MonthRow \<Rightarrow> MonthRow" where
  "bump now u mk expected r =
     (if isMonth u mk r \<and> m_version r = expected
      then r\<lparr>m_version := m_version r + 1, m_updated_at := now\<rparr> else r)"

text \<open>One statement: \<open>None\<close> when it fails on a constraint, otherwise the database after
  it and \<^verbatim>\<open>meta.changes\<close>.\<close>

fun exec :: "Stmt \<Rightarrow> D1Database \<Rightarrow> (D1Database \<times> nat) option" where
  "exec (InsertMonthIfMissing u mk now) db =
     (if hasMonth db u mk then Some (db, 0)
      else if \<not> hasUser db u then None
      else Some (db\<lparr>months := months db @
             [\<lparr>m_user_id = u, m_month_key = mk, m_version = 0, m_monthly_budget = None,
               m_cutoff_type = ''calendar'', m_cutoff_day = None, m_updated_at = now\<rparr>]\<rparr>, 1))"
| "exec (BumpVersion now u mk expected) db =
     Some (db\<lparr>months := map (bump now u mk expected) (months db)\<rparr>,
           length (filter (\<lambda>r. isMonth u mk r \<and> m_version r = expected) (months db)))"
| "exec (InsertEntry i u mk d t a c memo pm created updated) db =
     (case i of
        None \<Rightarrow> None
      | Some eid \<Rightarrow>
          if eid \<in> set (map e_entry_id (entries db)) then None
          else if \<not> hasUser db u \<or> \<not> hasMonth db u mk \<or> \<not> hasCategory db c then None
          else Some (db\<lparr>entries := entries db @
                 [\<lparr>e_entry_id = eid, e_user_id = u, e_month_key = mk, e_date = d, e_type = t,
                   e_amount = a, e_category_id = c, e_memo = memo, e_payment_method = pm,
                   e_created_at = created, e_updated_at = updated\<rparr>]\<rparr>, 1))"
| "exec (UpdateEntryRow d t a c memo pm now i u mk) db =
     (if filter (isEntry i u mk) (entries db) \<noteq> [] \<and> \<not> hasCategory db c then None
      else Some (db\<lparr>entries := map (\<lambda>r. if isEntry i u mk r
                   then r\<lparr>e_date := d, e_type := t, e_amount := a, e_category_id := c,
                          e_memo := memo, e_payment_method := pm, e_updated_at := now\<rparr>
                   else r) (entries db)\<rparr>,
                 length (filter (isEntry i u mk) (entries db))))"
| "exec (DeleteEntryRow i u mk) db =
     Some (db\<lparr>entries := filter (\<lambda>r. \<not> isEntry i u mk r) (entries db)\<rparr>,
           length (filter (isEntry i u mk) (entries db)))"
| "exec (UpsertBudget u mk d v created updated) db =
     (if filter (isBudget u mk d) (daily_budgets db) \<noteq> []
      then Some (db\<lparr>daily_budgets := map (\<lambda>r. if isBudget u mk d r
                   then r\<lparr>d_daily_budget_override := v, d_updated_at := updated\<rparr> else r)
                   (daily_budgets db)\<rparr>, 1)
      else if \<not> hasUser db u \<or> \<not> hasMonth db u mk then None
      else Some (db\<lparr>daily_budgets := daily_budgets db @
             [\<lparr>d_user_id = u, d_month_key = mk, d_date = d, d_daily_budget_override = v,
               d_created_at = created, d_updated_at = updated\<rparr>]\<rparr>, 1))"
| "exec (DeleteBudget u mk d) db =
     Some (db\<lparr>daily_budgets := filter (\<lambda>r. \<not> isBudget u mk d r) (daily_budgets db)\<rparr>,
           length (filter (isBudget u mk d) (daily_budgets db)))"

text \<open>\<^verbatim>\<open>db.batch\<close>: the statements run in order inside one transaction. When one of them
  fails the transaction is rolled back and the call throws (\<open>None\<close>); otherwise every
  statement is committed and the call returns the \<^verbatim>\<open>meta.changes\<close> of each. A statement
  that changes no row has not failed.\<close>

fun batch :: "Stmt list \<Rightarrow> D1Database \<Rightarrow> (D1Database \<times> nat list) option" where
  "batch [] db = Some (db, [])"
| "batch (s # ss) db =
     (case exec s db of
        None \<Rightarrow> None
      | Some (db', n) \<Rightarrow>
          (case batch ss db' of
             None \<Rightarrow> None
           | Some (db'', ns) \<Rightarrow> Some (db'', n # ns)))"

text \<open>\<^verbatim>\<open>SELECT category_id FROM categories WHERE user_id = ?\<close>; a read is taken
  not to fail.\<close>

definition selectCategoryIds :: "D1Database \<Rightarrow> string \<Rightarrow> string list" where
  "selectCategoryIds db u = map c_category_id (filter (\<lambda>r. c_user_id r = u) (categories db))"

text \<open>What the handler asks of the database, in order.\<close>

datatype DbCall = CategoryQuery string | Batch "Stmt list"

subsection \<open>The main handler\<close>

text \<open>\<^verbatim>\<open>if (ops.xs) { if (!Array.isArray(ops.xs)) return errorResponse(400, msg); ... }\<close>:
  the elements to loop over, none when the property is falsy.\<close>

definition opsArray :: "json \<Rightarrow> string \<Rightarrow> string \<Rightarrow> string + json list" where
  "opsArray ops name msg =
     (if \<not> truthy (getProp ops name) then Inr []
      else case getProp ops name of Some (JArr xs) \<Rightarrow> Inr xs | _ \<Rightarrow> Inl msg)"

text \<open>A validation loop: the first element that fails ends the request.\<close>

fun validateEach :: "('a \<Rightarrow> string + 'b) \<Rightarrow> 'a list \<Rightarrow> string + 'b list" where
  "validateEach f [] = Inr []"
| "validateEach f (x # xs) =
     (case f x of
        Inl msg \<Rightarrow> Inl msg
      | Inr v \<Rightarrow> (case validateEach f xs of Inl msg \<Rightarrow> Inl msg | Inr vs \<Rightarrow> Inr (v # vs)))"

text \<open>\<^verbatim>\<open>v.entry_id || crypto.randomUUID()\<close>: \<open>k\<close> counts the calls made so far.\<close>

definition needsId :: "CreateEntry \<Rightarrow> bool" where
  "needsId v = (case ce_entry_id v of None \<Rightarrow> True | Some i \<Rightarrow> i = [])"

fun createLoop :: "Env \<Rightarrow> nat \<Rightarrow> string \<Rightarrow> json list \<Rightarrow> string + CreateEntry list" where
  "createLoop env k monthKey [] = Inr []"
| "createLoop env k monthKey (e # es) =
     (case validateCreateEntry e monthKey of
        Inl msg \<Rightarrow> Inl msg
      | Inr v \<Rightarrow>
          (case createLoop env (if needsId v then Suc k else k) monthKey es of
             Inl msg \<Rightarrow> Inl msg
           | Inr vs \<Rightarrow>
               Inr ((if needsId v then v\<lparr>ce_entry_id := Some (randomUUID env k)\<rparr> else v) # vs)))"

definition validateDeleteId :: "json \<Rightarrow> string + string" where
  "validateDeleteId j =
     (case j of
        JStr i \<Rightarrow> if i = [] then Inl ''delete_entry_ids must contain non-empty strings.'' else Inr i
      | _ \<Rightarrow> Inl ''delete_entry_ids must contain non-empty strings.'')"

definition validateDeleteDate :: "string \<Rightarrow> json \<Rightarrow> string + string" where
  "validateDeleteDate monthKey j =
     (case j of
        JStr d \<Rightarrow>
          if \<not> DATE_RE d then Inl ''delete_daily_budget_dates must contain YYYY-MM-DD strings.''
          else if \<not> dateMatchesMonthKey d monthKey then Inl (dateMismatch d monthKey)
          else Inr d
      | _ \<Rightarrow> Inl ''delete_daily_budget_dates must contain YYYY-MM-DD strings.'')"

record ValidatedOps =
  createEntries :: "CreateEntry list"
  updateEntries :: "UpdateEntry list"
  deleteEntryIds :: "string list"
  upsertDailyBudgets :: "UpsertDailyBudget list"
  deleteDailyBudgetDates :: "string list"

text \<open>A step of the handler that can end the request with a message.\<close>

definition andThen :: "string + 'a \<Rightarrow> ('a \<Rightarrow> string + 'b) \<Rightarrow> string + 'b" where
  "andThen r f = (case r of Inl msg \<Rightarrow> Inl msg | Inr v \<Rightarrow> f v)"

text \<open>Lines 202 to 251: the five lists, validated in the order of the source.\<close>

definition validateOps :: "Env \<Rightarrow> string \<Rightarrow> json \<Rightarrow> string + ValidatedOps" where
  "validateOps env monthKey ops =
     andThen (andThen (opsArray ops ''create_entries'' ''create_entries must be an array.'')
                (createLoop env 0 monthKey)) (\<lambda>cs.
     andThen (andThen (opsArray ops ''update_entries'' ''update_entries must be an array.'')
                (validateEach (\<lambda>e. validateUpdateEntry e monthKey))) (\<lambda>us.
     andThen (andThen (opsArray ops ''delete_entry_ids'' ''delete_entry_ids must be an array.'')
                (validateEach validateDeleteId)) (\<lambda>ds.
     andThen (andThen (opsArray ops ''upsert_daily_budgets'' ''upsert_daily_budgets must be an array.'')
                (validateEach (\<lambda>d. validateUpsertDailyBudget d monthKey))) (\<lambda>bs.
     andThen (andThen (opsArray ops ''delete_daily_budget_dates''
                ''delete_daily_budget_dates must be an array.'')
                (validateEach (validateDeleteDate monthKey))) (\<lambda>dds.
     Inr \<lparr>createEntries = cs, updateEntries = us, deleteEntryIds = ds,
          upsertDailyBudgets = bs, deleteDailyBudgetDates = dds\<rparr>)))))"

definition totalOps :: "ValidatedOps \<Rightarrow> nat" where
  "totalOps v = length (createEntries v) + length (updateEntries v) + length (deleteEntryIds v)
     + length (upsertDailyBudgets v) + length (deleteDailyBudgetDates v)"

text \<open>\<^verbatim>\<open>Set.add\<close>, keeping the order of insertion.\<close>

definition setAdd :: "string list \<Rightarrow> string \<Rightarrow> string list" where
  "setAdd s x = (if x \<in> set s then s else s @ [x])"

definition allCategoryIds :: "ValidatedOps \<Rightarrow> string list" where
  "allCategoryIds v =
     foldl setAdd (foldl setAdd [] (map ce_category_id (createEntries v)))
       (map ue_category_id (updateEntries v))"

text \<open>Lines 283 to 345: the statements of the batch.\<close>

definition buildStatements :: "string \<Rightarrow> string \<Rightarrow> string \<Rightarrow> int \<Rightarrow> ValidatedOps \<Rightarrow> Stmt list" where
  "buildStatements now user_id monthKey expected v =
     [InsertMonthIfMissing user_id monthKey now, BumpVersion now user_id monthKey expected]
     @ map (\<lambda>e. InsertEntry (ce_entry_id e) user_id monthKey (ce_date e) (ce_type e) (ce_amount e)
                  (ce_category_id e) (ce_memo e) (ce_payment_method e) now now) (createEntries v)
     @ map (\<lambda>e. UpdateEntryRow (ue_date e) (ue_type e) (ue_amount e) (ue_category_id e) (ue_memo e)
                  (ue_payment_method e) now (ue_entry_id e) user_id monthKey) (updateEntries v)
     @ map (\<lambda>i. DeleteEntryRow i user_id monthKey) (deleteEntryIds v)
     @ map (\<lambda>d. UpsertBudget user_id monthKey (ub_date d) (ub_daily_budget_override d) now now)
         (upsertDailyBudgets v)
     @ map (\<lambda>d. DeleteBudget user_id monthKey d) (deleteDailyBudgetDates v)"

definition appliedOf :: "ValidatedOps \<Rightarrow> Applied" where
  "appliedOf v =
     \<lparr>created_entries = length (createEntries v), updated_entries = length (updateEntries v),
      deleted_entries = length (deleteEntryIds v),
      upserted_daily_budgets = length (upsertDailyBudgets v),
      deleted_daily_budgets = length (deleteDailyBudgetDates v)\<rparr>"

definition noApplied :: Applied where
  "noApplied = \<lparr>created_entries = 0, updated_entries = 0, deleted_entries = 0,
     upserted_daily_budgets = 0, deleted_daily_budgets = 0\<rparr>"

text \<open>\<^verbatim>\<open>x + 1\<close> on doubles, for an integer \<open>x\<close> that is the value of a double. The sum
  is exact while its size stays within \<open>2^53\<close>. Up to \<open>2^54\<close> the doubles are the even
  integers: the sum lies half way between two of them and the one with the even significand
  is taken. Beyond, the sum rounds back to \<open>x\<close>.\<close>

definition plusOne :: "int \<Rightarrow> int" where
  "plusOne x =
     (if - 9007199254740992 \<le> x \<and> x < 9007199254740992 then x + 1
      else if \<bar>x\<bar> \<le> 18014398509481984 then (if even (\<bar>x\<bar> div 2) then x else x + 2)
      else x)"

definition conflictResponse :: Response where
  "conflictResponse =
     jsonResponse 409 (ConflictBody ''Conflict'' ''Please fetch latest and re-apply changes.'')"

text \<open>How a call of the handler ends: with a response, or with the exception of a failed
  batch, which the handler does not catch.\<close>

datatype Outcome = Returned Response | Thrown

record Run =
  outcome :: Outcome
  database :: D1Database
  calls :: "DbCall list"

text \<open>Lines 283 to 373, once the categories are checked.\<close>

definition applyBatch :: "Env \<Rightarrow> D1Database \<Rightarrow> string \<Rightarrow> SaveRequest \<Rightarrow> ValidatedOps
    \<Rightarrow> DbCall list \<Rightarrow> Run" where
  "applyBatch env db user_id req v issued =
     (let stmts = buildStatements (nowIso env) user_id (sr_month_key req) (sr_expected_version req) v
      in case batch stmts db of
           None \<Rightarrow> \<lparr>outcome = Thrown, database = db, calls = issued @ [Batch stmts]\<rparr>
         | Some (db', results) \<Rightarrow>
             (case results of
                r0 # versionBump # rest \<Rightarrow>
                  if versionBump = 0
                  then \<lparr>outcome = Returned conflictResponse, database = db',
                        calls = issued @ [Batch stmts]\<rparr>
                  else \<lparr>outcome = Returned (jsonResponse 200
                          (SaveResponse (sr_month_key req) (plusOne (sr_expected_version req)) (appliedOf v))),
                        database = db', calls = issued @ [Batch stmts]\<rparr>
              | _ \<Rightarrow> \<lparr>outcome = Thrown, database = db', calls = issued @ [Batch stmts]\<rparr>))"

text \<open>Lines 253 to 281: the no-op check and the category check.\<close>

definition saveValidated :: "Env \<Rightarrow> D1Database \<Rightarrow> string \<Rightarrow> SaveRequest \<Rightarrow> ValidatedOps \<Rightarrow> Run" where
  "saveValidated env db user_id req v =
     (if totalOps v = 0
      then \<lparr>outcome = Returned (jsonResponse 200
              (SaveResponse (sr_month_key req) (sr_expected_version req) noApplied)),
            database = db, calls = []\<rparr>
      else if allCategoryIds v = [] then applyBatch env db user_id req v []
      else case find (\<lambda>cid. cid \<notin> set (selectCategoryIds db user_id)) (allCategoryIds v) of
             Some cid \<Rightarrow>
               \<lparr>outcome = Returned (errorResponse 400 (''Invalid category_id: '' @ cid)),
                database = db, calls = [CategoryQuery user_id]\<rparr>
           | None \<Rightarrow> applyBatch env db user_id req v [CategoryQuery user_id])"

definition reject :: "D1Database \<Rightarrow> nat \<Rightarrow> string \<Rightarrow> Run" where
  "reject db st msg = \<lparr>outcome = Returned (errorResponse st msg), database = db, calls = []\<rparr>"

text \<open>The request body is \<open>None\<close> when \<^verbatim>\<open>request.json()\<close> throws.\<close>

definition handlePostMonthly :: "Env \<Rightarrow> D1Database \<Rightarrow> string \<Rightarrow> json option \<Rightarrow> Run" where
  "handlePostMonthly env db user_id request =
     (case request of
        None \<Rightarrow> reject db 400 ''Invalid JSON body.''
      | Some rawBody \<Rightarrow>
          (case validateBody rawBody of
             Inl msg \<Rightarrow> reject db 400 msg
           | Inr validated \<Rightarrow>
               if sr_month_key validated \<notin> set (getEditableMonthKeys env)
               then reject db 403 ''This month is read-only.''
               else (case validateOps env (sr_month_key validated) (sr_ops validated) of
                       Inl msg \<Rightarrow> reject db 400 msg
                     | Inr v \<Rightarrow> saveValidated env db user_id validated v)))"

subsection \<open>A concrete month, for evaluating the handler\<close>

definition exEnv :: Env where
  "exEnv = \<lparr>nowFullYear = 2026, nowMonth = 1, nowDate = 15, nowIso = ''2026-02-15 10:00:00'',
            randomUUID = (\<lambda>k. ''uuid-'' @ digitsOf k)\<rparr>"

definition exDb :: D1Database where
  "exDb = \<lparr>users = [\<lparr>u_user_id = ''u1'', u_created_at = ''2026-01-01 00:00:00''\<rparr>], months = [],
    categories = [\<lparr>c_category_id = ''cat-001'', c_user_id = ''u1'', c_name = ''food'',
                   c_kind = ''expense'', c_is_active = 1, c_sort_order = None,
                   c_created_at = ''2026-01-01 00:00:00'',
                   c_updated_at = ''2026-01-01 00:00:00''\<rparr>],
    entries = [], daily_budgets = []\<rparr>"

definition noopBody :: json where
  "noopBody =
     JObj [(''month_key'', JStr ''2026-02''), (''expected_version'', JNum 3), (''ops'', JObj [])]"

fun isCategoryQuery :: "DbCall \<Rightarrow> bool" where
  "isCategoryQuery (CategoryQuery u) = True"
| "isCategoryQuery (Batch ss) = False"

definition strayBody :: json where
  "strayBody =
     JObj [(''month_key'', JStr ''2026-02''), (''expected_version'', JNum 0),
           (''ops'', JObj [(''create_entries'', JArr [JObj [(''date'', JStr ''2026-02-05''),
              (''type'', JStr ''expense''), (''amount'', JNum 500),
              (''category_id'', JStr ''cat-999'')]])])]"

definition ghostBody :: json where
  "ghostBody =
     JObj [(''month_key'', JStr ''2026-02''), (''expected_version'', JNum 0),
           (''ops'', JObj [(''delete_entry_ids'', JArr [JStr ''ghost''])])]"

text \<open>The versions stored for a month: one, by the primary key of \<^verbatim>\<open>months\<close>, or none.\<close>

definition storedVersions :: "D1Database \<Rightarrow> string \<Rightarrow> string \<Rightarrow> int list" where
  "storedVersions db u mk = map m_version (filter (isMonth u mk) (months db))"

text \<open>The primary key of \<^verbatim>\<open>months\<close>: one row for a user and a month key.\<close>

definition monthsKeyed :: "D1Database \<Rightarrow> bool" where
  "monthsKeyed db = distinct (map (\<lambda>r. (m_user_id r, m_month_key r)) (months db))"

definition monthDb :: D1Database where
  "monthDb = exDb\<lparr>months := [\<lparr>m_user_id = ''u1'', m_month_key = ''2026-02'', m_version = 1,
     m_monthly_budget = None, m_cutoff_type = ''calendar'', m_cutoff_day = None,
     m_updated_at = ''2026-02-01 09:00:00''\<rparr>]\<rparr>"

definition groceries :: json where
  "groceries = JObj [(''date'', JStr ''2026-02-05''), (''type'', JStr ''expense''),
     (''amount'', JNum 500), (''category_id'', JStr ''cat-001'')]"

definition createBody :: "rat \<Rightarrow> json" where
  "createBody ev =
     JObj [(''month_key'', JStr ''2026-02''), (''expected_version'', JNum ev),
           (''ops'', JObj [(''create_entries'', JArr [groceries])])]"

definition groceriesEntry :: CreateEntry where
  "groceriesEntry = \<lparr>ce_entry_id = Some ''uuid-0'', ce_date = ''2026-02-05'',
     ce_type = ''expense'', ce_amount = 500, ce_category_id = ''cat-001'', ce_memo = None,
     ce_payment_method = None\<rparr>"

definition groceriesRow :: EntryRow where
  "groceriesRow = \<lparr>e_entry_id = ''uuid-0'', e_user_id = ''u1'', e_month_key = ''2026-02'',
     e_date = ''2026-02-05'', e_type = ''expense'', e_amount = 500, e_category_id = ''cat-001'',
     e_memo = None, e_payment_method = None, e_created_at = ''2026-02-15 10:00:00'',
     e_updated_at = ''2026-02-15 10:00:00''\<rparr>"

fun touchesMonths :: "Stmt \<Rightarrow> bool" where
  "touchesMonths (InsertMonthIfMissing u mk now) = True"
| "touchesMonths (BumpVersion now u mk expected) = True"
| "touchesMonths s = False"

text \<open>An entry row of another user or of another month than the save's.\<close>

definition foreignEntry :: "string \<Rightarrow> string \<Rightarrow> EntryRow \<Rightarrow> bool" where
  "foreignEntry u mk r = (e_user_id r \<noteq> u \<or> e_month_key r \<noteq> mk)"

text \<open>The user and the month key a statement is bound to.\<close>

fun scopedTo :: "string \<Rightarrow> string \<Rightarrow> Stmt \<Rightarrow> bool" where
  "scopedTo u mk (InsertMonthIfMissing u' mk' now) = (u' = u \<and> mk' = mk)"
| "scopedTo u mk (BumpVersion now u' mk' expected) = (u' = u \<and> mk' = mk)"
| "scopedTo u mk (InsertEntry i u' mk' d t a c memo pm created updated) = (u' = u \<and> mk' = mk)"
| "scopedTo u mk (UpdateEntryRow d t a c memo pm now i u' mk') = (u' = u \<and> mk' = mk)"
| "scopedTo u mk (DeleteEntryRow i u' mk') = (u' = u \<and> mk' = mk)"
| "scopedTo u mk (UpsertBudget u' mk' d v created updated) = (u' = u \<and> mk' = mk)"
| "scopedTo u mk (DeleteBudget u' mk' d) = (u' = u \<and> mk' = mk)"

definition sharedDb :: D1Database where
  "sharedDb =
     \<lparr>users = [\<lparr>u_user_id = ''u1'', u_created_at = ''2026-01-01 00:00:00''\<rparr>,
               \<lparr>u_user_id = ''u2'', u_created_at = ''2026-01-02 00:00:00''\<rparr>],
      months = [\<lparr>m_user_id = ''u1'', m_month_key = ''2026-02'', m_version = 1,
                 m_monthly_budget = None, m_cutoff_type = ''calendar'', m_cutoff_day = None,
                 m_updated_at = ''2026-02-01 09:00:00''\<rparr>,
                \<lparr>m_user_id = ''u2'', m_month_key = ''2026-02'', m_version = 4,
                 m_monthly_budget = None, m_cutoff_type = ''calendar'', m_cutoff_day = None,
                 m_updated_at = ''2026-02-03 09:00:00''\<rparr>],
      categories = [\<lparr>c_category_id = ''cat-001'', c_user_id = ''u1'', c_name = ''food'',
                     c_kind = ''expense'', c_is_active = 1, c_sort_order = None,
                     c_created_at = ''2026-01-01 00:00:00'',
                     c_updated_at = ''2026-01-01 00:00:00''\<rparr>,
                    \<lparr>c_category_id = ''cat-002'', c_user_id = ''u2'', c_name = ''rent'',
                     c_kind = ''expense'', c_is_active = 1, c_sort_order = None,
                     c_created_at = ''2026-01-02 00:00:00'',
                     c_updated_at = ''2026-01-02 00:00:00''\<rparr>],
      entries = [\<lparr>e_entry_id = ''e-other'', e_user_id = ''u2'', e_month_key = ''2026-02'',
                  e_date = ''2026-02-03'', e_type = ''expense'', e_amount = 70000,
                  e_category_id = ''cat-002'', e_memo = None, e_payment_method = None,
                  e_created_at = ''2026-02-03 09:00:00'',
                  e_updated_at = ''2026-02-03 09:00:00''\<rparr>],
      daily_budgets = []\<rparr>"

text \<open>The editable window in the words of the specification: the current calendar month
  and the five calendar months before it, each named by its month key. A month is a year
  and a month number from 1 to 12.\<close>

fun prevMonth :: "int \<times> int \<Rightarrow> int \<times> int" where
  "prevMonth (y, m) = (if m = 1 then (y - 1, 12) else (y, m - 1))"

definition monthKeyOf :: "int \<times> int \<Rightarrow> string" where
  "monthKeyOf ym = StringOfInt (fst ym) @ ''-'' @ padStart2 (StringOfInt (snd ym))"

definition editableWindow :: "int \<Rightarrow> int \<Rightarrow> string list" where
  "editableWindow y m = map (\<lambda>i. monthKeyOf ((prevMonth ^^ i) (y, m))) [0..<6]"

definition oldBody :: json where
  "oldBody =
     JObj [(''month_key'', JStr ''2025-08''), (''expected_version'', JNum 0), (''ops'', JObj [])]"

text \<open>The field constraints the specification lists for a create or update element.\<close>

definition dateViolation :: "json \<Rightarrow> string \<Rightarrow> bool" where
  "dateViolation e monthKey =
     (case getProp e ''date'' of
        Some (JStr d) \<Rightarrow> \<not> (DATE_RE d \<and> dateMatchesMonthKey d monthKey)
      | _ \<Rightarrow> True)"

definition typeViolation :: "json \<Rightarrow> bool" where
  "typeViolation e =
     (case getProp e ''type'' of
        Some (JStr t) \<Rightarrow> \<not> (t = ''expense'' \<or> t = ''income'')
      | _ \<Rightarrow> True)"

definition amountViolation :: "json \<Rightarrow> bool" where
  "amountViolation e =
     (case getProp e ''amount'' of
        Some (JNum a) \<Rightarrow> \<not> (isInteger a \<and> 0 < a)
      | _ \<Rightarrow> True)"

definition categoryViolation :: "json \<Rightarrow> bool" where
  "categoryViolation e =
     (case getProp e ''category_id'' of
        Some (JStr c) \<Rightarrow> c = []
      | _ \<Rightarrow> True)"


definition paymentViolation :: "json \<Rightarrow> bool" where
  "paymentViolation e =
     (case getProp e ''payment_method'' of
        None \<Rightarrow> False
      | Some JNull \<Rightarrow> False
      | Some (JStr p) \<Rightarrow> p \<notin> set VALID_PAYMENT_METHODS
      | _ \<Rightarrow> True)"

definition entryIdViolation :: "json \<Rightarrow> bool" where
  "entryIdViolation e =
     (case getProp e ''entry_id'' of
        None \<Rightarrow> False
      | Some JNull \<Rightarrow> False
      | Some (JStr i) \<Rightarrow> False
      | _ \<Rightarrow> True)"

text \<open>A message of \<^verbatim>\<open>validateCreateEntry\<close> together with the constraint it stands for.\<close>

definition createMessage :: "string \<Rightarrow> json \<Rightarrow> string \<Rightarrow> bool" where
  "createMessage m e monthKey =
     ((m = ''Invalid entry object.'' \<and> \<not> isObject (Some e))
      \<or> (m = ''entry_id must be a string if provided.'' \<and> entryIdViolation e)
      \<or> (m = ''date must be YYYY-MM-DD.'' \<and> dateViolation e monthKey)
      \<or> (\<exists>d. m = dateMismatch d monthKey \<and> getProp e ''date'' = Some (JStr d)
             \<and> dateViolation e monthKey)
      \<or> (m = ''type must be 'expense' or 'income'.'' \<and> typeViolation e)
      \<or> (m = ''amount must be a positive integer.'' \<and> amountViolation e)
      \<or> (m = ''category_id is required.'' \<and> categoryViolation e)
      \<or> (m = ''Invalid payment_method.'' \<and> paymentViolation e))"





text \<open>A date inside the calendar month of a month key, in the words of the specification:
  its year and month are those of the key and its day exists in that month.\<close>

definition digitVal :: "char \<Rightarrow> nat" where
  "digitVal c = length (takeWhile (\<lambda>x. x \<noteq> c) ''0123456789'')"

definition numberOf :: "string \<Rightarrow> nat" where
  "numberOf s = foldl (\<lambda>n c. 10 * n + digitVal c) 0 s"

definition leapYear :: "nat \<Rightarrow> bool" where
  "leapYear y = (y mod 4 = 0 \<and> (y mod 100 \<noteq> 0 \<or> y mod 400 = 0))"

definition daysInMonth :: "nat \<Rightarrow> nat \<Rightarrow> nat" where
  "daysInMonth y m =
     (if m = 2 then (if leapYear y then 29 else 28)
      else if m = 4 \<or> m = 6 \<or> m = 9 \<or> m = 11 then 30 else 31)"

definition dayOf :: "string \<Rightarrow> nat" where
  "dayOf d = numberOf (drop 8 d)"

definition inCalendarMonth :: "string \<Rightarrow> string \<Rightarrow> bool" where
  "inCalendarMonth d monthKey =
     (DATE_RE d \<and> take 7 d = monthKey \<and> 1 \<le> dayOf d
      \<and> dayOf d \<le> daysInMonth (numberOf (take 4 d)) (numberOf (take 2 (drop 5 d))))"

text \<open>What the handler does check of a date: the pattern, the year and month of the key,
  and a day from 01 to 31.\<close>

definition acceptedDate :: "string \<Rightarrow> string \<Rightarrow> bool" where
  "acceptedDate monthKey d = (DATE_RE d \<and> take 7 d = monthKey \<and> 1 \<le> dayOf d \<and> dayOf d \<le> 31)"

definition febEntry :: json where
  "febEntry = JObj [(''date'', JStr ''2026-02-30''), (''type'', JStr ''expense''),
     (''amount'', JNum 500), (''category_id'', JStr ''cat-001'')]"

definition febBody :: json where
  "febBody =
     JObj [(''month_key'', JStr ''2026-02''), (''expected_version'', JNum 0),
           (''ops'', JObj [(''create_entries'', JArr [febEntry])])]"

definition febCreate :: CreateEntry where
  "febCreate = \<lparr>ce_entry_id = Some ''uuid-0'', ce_date = ''2026-02-30'',
     ce_type = ''expense'', ce_amount = 500, ce_category_id = ''cat-001'', ce_memo = None,
     ce_payment_method = None\<rparr>"

text \<open>An element whose \<open>entry_id\<close> is absent, null or the empty string.\<close>

definition idAbsentOrEmpty :: "json \<Rightarrow> bool" where
  "idAbsentOrEmpty e =
     (case getProp e ''entry_id'' of
        None \<Rightarrow> True
      | Some JNull \<Rightarrow> True
      | Some (JStr i) \<Rightarrow> i = []
      | _ \<Rightarrow> False)"

text \<open>An insert statement binds an entry id that is not empty.\<close>

fun insertHasId :: "Stmt \<Rightarrow> bool" where
  "insertHasId (InsertEntry i u mk d t a c memo pm created updated) =
     (case i of None \<Rightarrow> False | Some x \<Rightarrow> x \<noteq> [])"
| "insertHasId s = True"

definition idsOps :: json where
  "idsOps = JObj [(''create_entries'', JArr [groceries,
     JObj [(''entry_id'', JStr ''mine''), (''date'', JStr ''2026-02-06''), (''type'', JStr ''income''),
           (''amount'', JNum 1200), (''category_id'', JStr ''cat-001'')],
     JObj [(''entry_id'', JStr ''''), (''date'', JStr ''2026-02-07''), (''type'', JStr ''expense''),
           (''amount'', JNum 80), (''category_id'', JStr ''cat-001'')]])]"

definition idsValidated :: ValidatedOps where
  "idsValidated =
     \<lparr>createEntries = [groceriesEntry,
        \<lparr>ce_entry_id = Some ''mine'', ce_date = ''2026-02-06'', ce_type = ''income'',
         ce_amount = 1200, ce_category_id = ''cat-001'', ce_memo = None,
         ce_payment_method = None\<rparr>,
        \<lparr>ce_entry_id = Some ''uuid-1'', ce_date = ''2026-02-07'', ce_type = ''expense'',
         ce_amount = 80, ce_category_id = ''cat-001'', ce_memo = None,
         ce_payment_method = None\<rparr>],
      updateEntries = [], deleteEntryIds = [], upsertDailyBudgets = [],
      deleteDailyBudgetDates = []\<rparr>"

definition bigDb :: D1Database where
  "bigDb = exDb\<lparr>months := [\<lparr>m_user_id = ''u1'', m_month_key = ''2026-02'',
     m_version = 9007199254740992, m_monthly_budget = None, m_cutoff_type = ''calendar'',
     m_cutoff_day = None, m_updated_at = ''2026-02-01 09:00:00''\<rparr>]\<rparr>"

text \<open>The entry ids a validated request names in its updates and deletions.\<close>

definition listedIds :: "ValidatedOps \<Rightarrow> string list" where
  "listedIds v = map ue_entry_id (updateEntries v) @ deleteEntryIds v"

text \<open>An entry row that an update or a deletion of entries for user \<open>u\<close>, month \<open>mk\<close> and
  the ids \<open>ids\<close> must not reach: it is of another user, of another month, or has another id.\<close>

definition outOfReach :: "string \<Rightarrow> string \<Rightarrow> string list \<Rightarrow> EntryRow \<Rightarrow> bool" where
  "outOfReach u mk ids r = (e_user_id r \<noteq> u \<or> e_month_key r \<noteq> mk \<or> e_entry_id r \<notin> set ids)"

text \<open>A statement bound to \<open>u\<close> and \<open>mk\<close> and, when it updates or deletes an entry, to
  an entry id of \<open>ids\<close>.\<close>

fun boundTo :: "string \<Rightarrow> string \<Rightarrow> string list \<Rightarrow> Stmt \<Rightarrow> bool" where
  "boundTo u mk ids (UpdateEntryRow d t a c memo pm now i u' mk') =
     (i \<in> set ids \<and> u' = u \<and> mk' = mk)"
| "boundTo u mk ids (DeleteEntryRow i u' mk') = (i \<in> set ids \<and> u' = u \<and> mk' = mk)"
| "boundTo u mk ids s = scopedTo u mk s"

text \<open>The entry ids that the updates and the deletions of entries in a list of statements
  are bound to, in the order of the statements.\<close>

fun touchedIds :: "Stmt list \<Rightarrow> string list" where
  "touchedIds [] = []"
| "touchedIds (UpdateEntryRow d t a c memo pm now i u mk # ss) = i # touchedIds ss"
| "touchedIds (DeleteEntryRow i u mk # ss) = i # touchedIds ss"
| "touchedIds (s # ss) = touchedIds ss"

definition ownEntry :: "string \<Rightarrow> string \<Rightarrow> EntryRow \<Rightarrow> bool" where
  "ownEntry u mk r = (e_user_id r = u \<and> e_month_key r = mk)"

definition otherRow :: EntryRow where
  "otherRow = \<lparr>e_entry_id = ''e-other'', e_user_id = ''u2'', e_month_key = ''2026-02'',
     e_date = ''2026-02-03'', e_type = ''expense'', e_amount = 70000,
     e_category_id = ''cat-002'', e_memo = None, e_payment_method = None,
     e_created_at = ''2026-02-03 09:00:00'', e_updated_at = ''2026-02-03 09:00:00''\<rparr>"

definition keepRow :: EntryRow where
  "keepRow = \<lparr>e_entry_id = ''e-keep'', e_user_id = ''u1'', e_month_key = ''2026-02'',
     e_date = ''2026-02-04'', e_type = ''expense'', e_amount = 300,
     e_category_id = ''cat-001'', e_memo = None, e_payment_method = None,
     e_created_at = ''2026-02-04 09:00:00'', e_updated_at = ''2026-02-04 09:00:00''\<rparr>"

definition goneRow :: EntryRow where
  "goneRow = \<lparr>e_entry_id = ''e-gone'', e_user_id = ''u1'', e_month_key = ''2026-02'',
     e_date = ''2026-02-06'', e_type = ''expense'', e_amount = 900,
     e_category_id = ''cat-001'', e_memo = None, e_payment_method = None,
     e_created_at = ''2026-02-06 09:00:00'', e_updated_at = ''2026-02-06 09:00:00''\<rparr>"

definition crowdedDb :: D1Database where
  "crowdedDb = sharedDb\<lparr>entries := [otherRow, keepRow, goneRow]\<rparr>"

definition sweepOps :: json where
  "sweepOps = JObj [(''update_entries'', JArr [JObj [(''entry_id'', JStr ''e-other''),
                (''date'', JStr ''2026-02-05''), (''type'', JStr ''income''),
                (''amount'', JNum 1), (''category_id'', JStr ''cat-001'')]]),
              (''delete_entry_ids'', JArr [JStr ''e-other'', JStr ''e-gone''])]"

definition sweepBody :: json where
  "sweepBody =
     JObj [(''month_key'', JStr ''2026-02''), (''expected_version'', JNum 1), (''ops'', sweepOps)]"

definition sweepValidated :: ValidatedOps where
  "sweepValidated =
     \<lparr>createEntries = [],
      updateEntries = [\<lparr>ue_entry_id = ''e-other'', ue_date = ''2026-02-05'', ue_type = ''income'',
             ue_amount = 1, ue_category_id = ''cat-001'', ue_memo = None,
             ue_payment_method = None\<rparr>],
      deleteEntryIds = [''e-other'', ''e-gone''],
      upsertDailyBudgets = [], deleteDailyBudgetDates = []\<rparr>"

text \<open>The entry ids the insert statements of a batch bind, in order.\<close>

fun insertedIds :: "Stmt list \<Rightarrow> string option list" where
  "insertedIds [] = []"
| "insertedIds (InsertEntry i u mk d t a c memo pm created updated # ss) = i # insertedIds ss"
| "insertedIds (s # ss) = insertedIds ss"

definition idsBody :: json where
  "idsBody =
     JObj [(''month_key'', JStr ''2026-02''), (''expected_version'', JNum 0), (''ops'', idsOps)]"

section \<open>Basic facts\<close>

lemma batch_length: "batch ss db = Some (db', rs) \<Longrightarrow> length rs = length ss"
  by (induction ss arbitrary: db db' rs) (auto split: option.splits prod.splits)

lemma andThen_Inr: "(andThen r f = Inr v) = (\<exists>a. r = Inr a \<and> f a = Inr v)"
  by (cases r) (simp_all add: andThen_def)

lemma andThen_Inl: "(andThen r f = Inl m) = (r = Inl m \<or> (\<exists>a. r = Inr a \<and> f a = Inl m))"
  by (cases r) (simp_all add: andThen_def)

lemma handle_valid:
  "validateBody b = Inr req \<Longrightarrow> sr_month_key req \<in> set (getEditableMonthKeys env) \<Longrightarrow>
   validateOps env (sr_month_key req) (sr_ops req) = Inr v \<Longrightarrow>
   handlePostMonthly env db u (Some b) = saveValidated env db u req v"
  by (simp add: handlePostMonthly_def)

lemma handle_invalid_ops:
  "validateBody b = Inr req \<Longrightarrow> sr_month_key req \<in> set (getEditableMonthKeys env) \<Longrightarrow>
   validateOps env (sr_month_key req) (sr_ops req) = Inl msg \<Longrightarrow>
   handlePostMonthly env db u (Some b) = reject db 400 msg"
  by (simp add: handlePostMonthly_def)

lemma handle_readonly:
  "validateBody b = Inr req \<Longrightarrow> sr_month_key req \<notin> set (getEditableMonthKeys env) \<Longrightarrow>
   handlePostMonthly env db u (Some b) = reject db 403 ''This month is read-only.''"
  by (simp add: handlePostMonthly_def)

lemma buildStatements_length: "length (buildStatements now u mk ev v) = 2 + totalOps v"
  by (simp add: buildStatements_def totalOps_def)

lemma applyBatch_Some:
  assumes "batch (buildStatements (nowIso env) u (sr_month_key req) (sr_expected_version req) v) db
             = Some (db', rs)"
  shows "applyBatch env db u req v issued =
     \<lparr>outcome = Returned (if rs ! 1 = 0 then conflictResponse
         else jsonResponse 200
                (SaveResponse (sr_month_key req) (plusOne (sr_expected_version req)) (appliedOf v))),
      database = db',
      calls = issued @ [Batch (buildStatements (nowIso env) u (sr_month_key req)
                                 (sr_expected_version req) v)]\<rparr>"
proof -
  from batch_length [OF assms] have "length rs = 2 + totalOps v"
    by (simp add: buildStatements_length)
  then obtain r0 r1 rest where rs: "rs = r0 # r1 # rest"
    by (cases rs; cases "tl rs") auto
  show ?thesis using assms by (simp add: applyBatch_def rs)
qed

lemma applyBatch_None:
  assumes "batch (buildStatements (nowIso env) u (sr_month_key req) (sr_expected_version req) v) db
             = None"
  shows "applyBatch env db u req v issued =
     \<lparr>outcome = Thrown, database = db,
      calls = issued @ [Batch (buildStatements (nowIso env) u (sr_month_key req)
                                 (sr_expected_version req) v)]\<rparr>"
  using assms by (simp add: applyBatch_def)

subsection \<open>Evaluating the example\<close>

lemma digitsOf_numeral [simp]:
  "digitsOf (numeral n) = (if numeral n < (10::nat) then [''0123456789'' ! numeral n]
     else digitsOf (numeral n div 10) @ [''0123456789'' ! (numeral n mod 10)])"
  by (rule digitsOf.simps)

lemma digitsOf_small [simp]: "digitsOf 0 = ''0''" "digitsOf (Suc 0) = ''1''"
  by (simp_all add: digitsOf.simps)

lemma exEnv_keys:
  "getEditableMonthKeys exEnv =
     [''2026-02'', ''2026-01'', ''2025-12'', ''2025-11'', ''2025-10'', ''2025-09'']"
  by (simp add: getEditableMonthKeys_def monthKeyAt_def exEnv_def DateYM_def StringOfInt_def
      padStart2_def)

lemma noopBody_valid:
  "validateBody noopBody =
     Inr \<lparr>sr_month_key = ''2026-02'', sr_expected_version = 3, sr_ops = JObj []\<rparr>"
  by (simp add: validateBody_def noopBody_def MONTH_KEY_RE_def isDigit_def monthPart_def
      isInteger_def)

lemma noop_ops:
  "validateOps env mk (JObj []) =
     Inr \<lparr>createEntries = [], updateEntries = [], deleteEntryIds = [],
          upsertDailyBudgets = [], deleteDailyBudgetDates = []\<rparr>"
  by (simp add: validateOps_def andThen_def opsArray_def)

lemma validateEach_length: "validateEach f xs = Inr vs \<Longrightarrow> length vs = length xs"
  by (induction xs arbitrary: vs) (auto split: sum.splits)

lemma createLoop_length: "createLoop env k mk es = Inr vs \<Longrightarrow> length vs = length es"
  by (induction es arbitrary: vs k) (auto split: sum.splits)

lemma opsArray_JArr: "getProp ops name = Some (JArr xs) \<Longrightarrow> opsArray ops name msg = Inr xs"
  by (simp add: opsArray_def)

lemma validateOps_Inr:
  assumes "validateOps env mk ops = Inr v"
  shows "\<exists>cs us ds bs dds.
     opsArray ops ''create_entries'' ''create_entries must be an array.'' = Inr cs
   \<and> createLoop env 0 mk cs = Inr (createEntries v)
   \<and> opsArray ops ''update_entries'' ''update_entries must be an array.'' = Inr us
   \<and> validateEach (\<lambda>e. validateUpdateEntry e mk) us = Inr (updateEntries v)
   \<and> opsArray ops ''delete_entry_ids'' ''delete_entry_ids must be an array.'' = Inr ds
   \<and> validateEach validateDeleteId ds = Inr (deleteEntryIds v)
   \<and> opsArray ops ''upsert_daily_budgets'' ''upsert_daily_budgets must be an array.'' = Inr bs
   \<and> validateEach (\<lambda>d. validateUpsertDailyBudget d mk) bs = Inr (upsertDailyBudgets v)
   \<and> opsArray ops ''delete_daily_budget_dates'' ''delete_daily_budget_dates must be an array.'' = Inr dds
   \<and> validateEach (validateDeleteDate mk) dds = Inr (deleteDailyBudgetDates v)"
  using assms unfolding validateOps_def andThen_Inr by fastforce

lemma saveValidated_200:
  assumes "outcome (saveValidated env db u req v) = Returned r" and "status r = 200"
  shows "\<exists>nv. payload r = SaveResponse (sr_month_key req) nv (appliedOf v)"
proof (cases "totalOps v = 0")
  case True
  then have "appliedOf v = noApplied"
    by (simp add: totalOps_def appliedOf_def noApplied_def)
  with True assms show ?thesis
    by (auto simp: saveValidated_def jsonResponse_def)
next
  case False
  let ?stmts = "buildStatements (nowIso env) u (sr_month_key req) (sr_expected_version req) v"
  have ab: "\<exists>nv. payload r = SaveResponse (sr_month_key req) nv (appliedOf v)"
    if "outcome (applyBatch env db u req v issued) = Returned r" for issued
  proof (cases "batch ?stmts db")
    case None
    with that show ?thesis by (simp add: applyBatch_None)
  next
    case (Some p)
    obtain db' rs where "p = (db', rs)" by (cases p)
    with Some that assms(2) show ?thesis
      by (auto simp: applyBatch_Some conflictResponse_def jsonResponse_def split: if_splits)
  qed
  from False assms show ?thesis
    by (auto simp: saveValidated_def errorResponse_def ab split: if_splits option.splits)
qed

lemmas body_defs = validateBody_def MONTH_KEY_RE_def DATE_RE_def isDigit_def monthPart_def
  dayPart_def isInteger_def
lemmas ops_defs = validateOps_def andThen_def opsArray_def validateDeleteId_def
  validateDeleteDate_def validateCreateEntry_def validateUpdateEntry_def
  validateUpsertDailyBudget_def dateMatchesMonthKey_def startsWith_def VALID_TYPES_def
  VALID_PAYMENT_METHODS_def needsId_def
lemmas save_defs = saveValidated_def totalOps_def allCategoryIds_def setAdd_def plusOne_def
  selectCategoryIds_def applyBatch_def buildStatements_def appliedOf_def jsonResponse_def
  errorResponse_def conflictResponse_def hasMonth_def hasUser_def hasCategory_def isMonth_def
  isEntry_def isBudget_def bump_def

lemma ghost_valid:
  "validateBody ghostBody = Inr \<lparr>sr_month_key = ''2026-02'', sr_expected_version = 0,
     sr_ops = JObj [(''delete_entry_ids'', JArr [JStr ''ghost''])]\<rparr>"
  by (simp add: ghostBody_def body_defs)

lemma ghost_ops:
  "validateOps env ''2026-02'' (JObj [(''delete_entry_ids'', JArr [JStr ''ghost''])]) =
     Inr \<lparr>createEntries = [], updateEntries = [], deleteEntryIds = [''ghost''],
          upsertDailyBudgets = [], deleteDailyBudgetDates = []\<rparr>"
  by (simp add: ops_defs)

lemma ghost_run:
  "handlePostMonthly exEnv exDb ''u1'' (Some ghostBody) =
     \<lparr>outcome = Returned \<lparr>status = 200, payload = SaveResponse ''2026-02'' 1
        \<lparr>created_entries = 0, updated_entries = 0, deleted_entries = 1,
         upserted_daily_budgets = 0, deleted_daily_budgets = 0\<rparr>\<rparr>,
      database = exDb\<lparr>months := [\<lparr>m_user_id = ''u1'', m_month_key = ''2026-02'', m_version = 1,
         m_monthly_budget = None, m_cutoff_type = ''calendar'', m_cutoff_day = None,
         m_updated_at = ''2026-02-15 10:00:00''\<rparr>]\<rparr>,
      calls = [Batch [InsertMonthIfMissing ''u1'' ''2026-02'' ''2026-02-15 10:00:00'',
                      BumpVersion ''2026-02-15 10:00:00'' ''u1'' ''2026-02'' 0,
                      DeleteEntryRow ''ghost'' ''u1'' ''2026-02'']]\<rparr>"
  by (simp add: handlePostMonthly_def ghost_valid exEnv_keys ghost_ops save_defs)
     (simp add: exEnv_def exDb_def)

lemma set_foldl_setAdd: "set (foldl setAdd s xs) = set s \<union> set xs"
  by (induction xs arbitrary: s) (auto simp: setAdd_def)

lemma set_allCategoryIds:
  "set (allCategoryIds v) =
     set (map ce_category_id (createEntries v)) \<union> set (map ue_category_id (updateEntries v))"
  by (simp add: allCategoryIds_def set_foldl_setAdd)

lemma applyBatch_calls:
  "calls (applyBatch env db u req v issued) =
     issued @ [Batch (buildStatements (nowIso env) u (sr_month_key req) (sr_expected_version req) v)]"
proof (cases "batch (buildStatements (nowIso env) u (sr_month_key req) (sr_expected_version req) v) db")
  case None
  then show ?thesis by (simp add: applyBatch_None)
next
  case (Some p)
  then show ?thesis by (cases p) (simp add: applyBatch_Some)
qed

lemma stray_valid:
  "validateBody strayBody = Inr \<lparr>sr_month_key = ''2026-02'', sr_expected_version = 0,
     sr_ops = JObj [(''create_entries'', JArr [JObj [(''date'', JStr ''2026-02-05''),
              (''type'', JStr ''expense''), (''amount'', JNum 500),
              (''category_id'', JStr ''cat-999'')]])]\<rparr>"
  by (simp add: strayBody_def body_defs)

lemma stray_ops:
  "validateOps exEnv ''2026-02'' (JObj [(''create_entries'', JArr [JObj [(''date'', JStr ''2026-02-05''),
              (''type'', JStr ''expense''), (''amount'', JNum 500),
              (''category_id'', JStr ''cat-999'')]])]) =
     Inr \<lparr>createEntries = [\<lparr>ce_entry_id = Some ''uuid-0'', ce_date = ''2026-02-05'',
             ce_type = ''expense'', ce_amount = 500, ce_category_id = ''cat-999'', ce_memo = None,
             ce_payment_method = None\<rparr>],
          updateEntries = [], deleteEntryIds = [],
          upsertDailyBudgets = [], deleteDailyBudgetDates = []\<rparr>"
  by (simp add: ops_defs body_defs exEnv_def)

lemma exec_months:
  "\<not> touchesMonths s \<Longrightarrow> exec s db = Some (db', n) \<Longrightarrow> months db' = months db"
  by (cases s) (auto split: option.splits if_splits)

lemma batch_months:
  "list_all (\<lambda>s. \<not> touchesMonths s) ss \<Longrightarrow> batch ss db = Some (db', rs) \<Longrightarrow>
   months db' = months db"
proof (induction ss arbitrary: db rs)
  case Nil
  then show ?case by simp
next
  case (Cons s ss)
  then show ?case
    by (auto split: option.splits prod.splits dest: exec_months)
qed

lemma buildStatements_Cons:
  "\<exists>tail. buildStatements now u mk ev v =
      InsertMonthIfMissing u mk now # BumpVersion now u mk ev # tail
    \<and> list_all (\<lambda>s. \<not> touchesMonths s) tail"
  by (simp add: buildStatements_def list_all_iff) auto

lemma keyed_filter:
  "distinct (map (\<lambda>r. (m_user_id r, m_month_key r)) xs) \<Longrightarrow>
   length (filter (isMonth u mk) xs) \<le> 1"
proof (induction xs)
  case Nil
  then show ?case by simp
next
  case (Cons x xs)
  show ?case
  proof (cases "isMonth u mk x")
    case True
    with Cons.prems have "filter (isMonth u mk) xs = []"
      by (auto simp: filter_empty_conv isMonth_def image_iff)
    with True show ?thesis by simp
  next
    case False
    with Cons show ?thesis by simp
  qed
qed

lemma filter_bump:
  "filter (isMonth u mk) (map (bump now u mk ev) xs) = map (bump now u mk ev) (filter (isMonth u mk) xs)"
  by (induction xs) (auto simp: bump_def isMonth_def)

lemma guard_one:
  assumes keyed: "distinct (map (\<lambda>r. (m_user_id r, m_month_key r)) xs)"
    and one: "length (filter (\<lambda>r. isMonth u mk r \<and> m_version r = ev) xs) = 1"
  shows "map m_version (filter (isMonth u mk) xs) = [ev]
       \<and> map m_version (filter (isMonth u mk) (map (bump now u mk ev) xs)) = [ev + 1]"
proof -
  from one obtain r where r: "filter (\<lambda>r. isMonth u mk r \<and> m_version r = ev) xs = [r]"
    by (cases "filter (\<lambda>r. isMonth u mk r \<and> m_version r = ev) xs") auto
  then have "r \<in> set (filter (\<lambda>r. isMonth u mk r \<and> m_version r = ev) xs)" by simp
  then have rin: "r \<in> set (filter (isMonth u mk) xs)" and rv: "m_version r = ev" and rm: "isMonth u mk r"
    by auto
  from keyed_filter [OF keyed, of u mk] rin have "filter (isMonth u mk) xs = [r]"
    by (cases "filter (isMonth u mk) xs") auto
  with rv rm show ?thesis by (simp add: filter_bump bump_def)
qed

lemma saveValidated_applies:
  assumes "totalOps v \<noteq> 0"
    and "\<forall>c \<in> set (allCategoryIds v). c \<in> set (selectCategoryIds db u)"
  shows "\<exists>issued. saveValidated env db u req v = applyBatch env db u req v issued"
proof -
  from assms(2) have "find (\<lambda>cid. cid \<notin> set (selectCategoryIds db u)) (allCategoryIds v) = None"
    by (simp add: find_None_iff)
  with assms(1) show ?thesis by (auto simp: saveValidated_def)
qed

lemma guard_versions:
  assumes ran: "batch (buildStatements now u mk ev v) db = Some (db', rs)"
    and guard: "rs ! 1 = 1"
    and keyed: "monthsKeyed db"
  shows "storedVersions db' u mk = [ev + 1]
       \<and> (storedVersions db u mk = [ev] \<or> storedVersions db u mk = [] \<and> ev = 0)"
proof -
  from buildStatements_Cons [of now u mk ev v] obtain tail where
    stmts: "buildStatements now u mk ev v = InsertMonthIfMissing u mk now # BumpVersion now u mk ev # tail"
    and tail: "list_all (\<lambda>s. \<not> touchesMonths s) tail"
    by blast
  from ran [unfolded stmts] obtain db1 n0 where
    first: "exec (InsertMonthIfMissing u mk now) db = Some (db1, n0)"
    and rest1: "batch (BumpVersion now u mk ev # tail) db1 = Some (db', tl rs)" and rs0: "rs = n0 # tl rs"
    by (auto split: option.splits prod.splits)
  let ?db2 = "db1\<lparr>months := map (bump now u mk ev) (months db1)\<rparr>"
  let ?n1 = "length (filter (\<lambda>r. isMonth u mk r \<and> m_version r = ev) (months db1))"
  from rest1 obtain rs' where rest2: "batch tail ?db2 = Some (db', rs')" and rs1: "tl rs = ?n1 # rs'"
    by (auto split: option.splits prod.splits)
  from rs0 rs1 guard have one: "?n1 = 1"
    by (metis One_nat_def nth_Cons_0 nth_Cons_Suc)
  from batch_months [OF tail rest2] have m': "months db' = map (bump now u mk ev) (months db1)"
    by simp
  show ?thesis
  proof (cases "hasMonth db u mk")
    case True
    with first have "months db1 = months db" by auto
    with guard_one [OF _ one, of now] keyed m' show ?thesis
      by (simp add: storedVersions_def monthsKeyed_def)
  next
    case False
    then have none: "filter (isMonth u mk) (months db) = []"
      by (simp add: hasMonth_def)
    with False first have m1: "months db1 = months db @
        [\<lparr>m_user_id = u, m_month_key = mk, m_version = 0, m_monthly_budget = None,
          m_cutoff_type = ''calendar'', m_cutoff_day = None, m_updated_at = now\<rparr>]"
      by (auto split: if_splits)
    from none have "(u, mk) \<notin> set (map (\<lambda>r. (m_user_id r, m_month_key r)) (months db))"
      by (auto simp: filter_empty_conv isMonth_def)
    with keyed have keyed1: "distinct (map (\<lambda>r. (m_user_id r, m_month_key r)) (months db1))"
      by (simp add: m1 monthsKeyed_def)
    from guard_one [OF keyed1 one, of now]
    have before: "map m_version (filter (isMonth u mk) (months db1)) = [ev]"
      and after: "map m_version (filter (isMonth u mk) (map (bump now u mk ev) (months db1))) = [ev + 1]"
      by blast+
    from after m' have "storedVersions db' u mk = [ev + 1]"
      by (simp add: storedVersions_def)
    moreover from before none have "ev = 0"
      by (simp add: m1 isMonth_def)
    moreover from none have "storedVersions db u mk = []"
      by (simp add: storedVersions_def)
    ultimately show ?thesis by blast
  qed
qed

lemma create_valid:
  "validateBody (createBody 1) = Inr \<lparr>sr_month_key = ''2026-02'', sr_expected_version = 1,
     sr_ops = JObj [(''create_entries'', JArr [groceries])]\<rparr>"
  "validateBody (createBody 0) = Inr \<lparr>sr_month_key = ''2026-02'', sr_expected_version = 0,
     sr_ops = JObj [(''create_entries'', JArr [groceries])]\<rparr>"
  by (simp_all add: createBody_def body_defs)

lemma create_ops:
  "validateOps exEnv ''2026-02'' (JObj [(''create_entries'', JArr [groceries])]) =
     Inr \<lparr>createEntries = [groceriesEntry], updateEntries = [], deleteEntryIds = [],
          upsertDailyBudgets = [], deleteDailyBudgetDates = []\<rparr>"
  by (simp add: ops_defs body_defs exEnv_def groceries_def groceriesEntry_def)

lemma create_batch:
  "batch (buildStatements (nowIso exEnv) ''u1'' ''2026-02'' ev
       \<lparr>createEntries = [groceriesEntry], updateEntries = [], deleteEntryIds = [],
          upsertDailyBudgets = [], deleteDailyBudgetDates = []\<rparr>) monthDb =
   Some (monthDb\<lparr>months := [bump ''2026-02-15 10:00:00'' ''u1'' ''2026-02'' ev
             \<lparr>m_user_id = ''u1'', m_month_key = ''2026-02'', m_version = 1,
              m_monthly_budget = None, m_cutoff_type = ''calendar'', m_cutoff_day = None,
              m_updated_at = ''2026-02-01 09:00:00''\<rparr>],
           entries := [groceriesRow]\<rparr>, [0, if ev = 1 then 1 else 0, 1])"
  by (simp add: buildStatements_def groceriesEntry_def groceriesRow_def monthDb_def exDb_def
      exEnv_def hasMonth_def hasUser_def hasCategory_def isMonth_def bump_def)

lemma conflict_commits:
  assumes body: "validateBody b = Inr req"
    and editable: "sr_month_key req \<in> set (getEditableMonthKeys env)"
    and ops: "validateOps env (sr_month_key req) (sr_ops req) = Inr v"
    and some: "totalOps v \<noteq> 0"
    and cats: "\<forall>c \<in> set (allCategoryIds v). c \<in> set (selectCategoryIds db u)"
    and ran: "batch (buildStatements (nowIso env) u (sr_month_key req) (sr_expected_version req) v) db
                = Some (db', rs)"
    and guard: "rs ! 1 = 0"
  shows "outcome (handlePostMonthly env db u (Some b)) = Returned conflictResponse
       \<and> database (handlePostMonthly env db u (Some b)) = db'"
proof -
  from saveValidated_applies [OF some cats] obtain issued where
    "saveValidated env db u req v = applyBatch env db u req v issued"
    by blast
  with guard show ?thesis
    by (simp add: handle_valid [OF body editable ops] applyBatch_Some [OF ran])
qed

lemma filter_map_frame:
  "(\<And>x. P (f x) = P x) \<Longrightarrow> (\<And>x. P x \<Longrightarrow> f x = x) \<Longrightarrow> filter P (map f xs) = filter P xs"
  by (induction xs) auto

lemma filter_filter_frame:
  "(\<And>x. P x \<Longrightarrow> Q x) \<Longrightarrow> filter P (filter Q xs) = filter P xs"
  by (induction xs) auto

lemma exec_foreign:
  "scopedTo u mk s \<Longrightarrow> exec s db = Some (db', n) \<Longrightarrow>
   filter (foreignEntry u mk) (entries db') = filter (foreignEntry u mk) (entries db)"
proof (cases s)
  case (UpdateEntryRow d t a c memo pm now i u' mk')
  assume "scopedTo u mk s" "exec s db = Some (db', n)"
  with UpdateEntryRow have "entries db' = map (\<lambda>r. if isEntry i u mk r
                   then r\<lparr>e_date := d, e_type := t, e_amount := a, e_category_id := c,
                          e_memo := memo, e_payment_method := pm, e_updated_at := now\<rparr>
                   else r) (entries db)"
    by (auto split: if_splits)
  then show ?thesis
    by (auto intro!: filter_map_frame simp: foreignEntry_def isEntry_def split: if_splits)
next
  case (DeleteEntryRow i u' mk')
  assume "scopedTo u mk s" "exec s db = Some (db', n)"
  with DeleteEntryRow have "entries db' = filter (\<lambda>r. \<not> isEntry i u mk r) (entries db)"
    by auto
  then have "filter (foreignEntry u mk) (entries db')
      = filter (foreignEntry u mk) (filter (\<lambda>r. \<not> isEntry i u mk r) (entries db))"
    by (simp only:)
  also have "\<dots> = filter (foreignEntry u mk) (entries db)"
    by (rule filter_filter_frame) (simp add: foreignEntry_def isEntry_def)
  finally show ?thesis .
qed (auto simp: foreignEntry_def split: option.splits if_splits)

lemma batch_foreign:
  "list_all (scopedTo u mk) ss \<Longrightarrow> batch ss db = Some (db', rs) \<Longrightarrow>
   filter (foreignEntry u mk) (entries db') = filter (foreignEntry u mk) (entries db)"
proof (induction ss arbitrary: db rs)
  case Nil
  then show ?case by simp
next
  case (Cons s ss)
  from Cons.prems obtain db1 n rs1 where
    "exec s db = Some (db1, n)" "batch ss db1 = Some (db', rs1)"
    by (auto split: option.splits prod.splits)
  with Cons.IH [of db1 rs1] Cons.prems(1) exec_foreign [of u mk s db db1 n] show ?case
    by simp
qed

lemma buildStatements_scoped: "list_all (scopedTo u mk) (buildStatements now u mk ev v)"
  by (simp add: buildStatements_def list_all_iff) auto

lemma applyBatch_database:
  "database (applyBatch env db u req v issued) = db
   \<or> (\<exists>rs. batch (buildStatements (nowIso env) u (sr_month_key req) (sr_expected_version req) v) db
             = Some (database (applyBatch env db u req v issued), rs))"
proof (cases "batch (buildStatements (nowIso env) u (sr_month_key req) (sr_expected_version req) v) db")
  case None
  then show ?thesis by (simp add: applyBatch_None)
next
  case (Some p)
  then show ?thesis by (cases p) (simp add: applyBatch_Some)
qed

lemma saveValidated_database:
  "database (saveValidated env db u req v) = db
   \<or> (\<exists>rs. batch (buildStatements (nowIso env) u (sr_month_key req) (sr_expected_version req) v) db
             = Some (database (saveValidated env db u req v), rs))"
  using applyBatch_database [of env db u req v "[]"]
    applyBatch_database [of env db u req v "[CategoryQuery u]"]
  by (auto simp: saveValidated_def split: option.splits)

lemma saveValidated_calls:
  "Batch ss \<in> set (calls (saveValidated env db u req v)) \<Longrightarrow>
   ss = buildStatements (nowIso env) u (sr_month_key req) (sr_expected_version req) v"
  by (auto simp: saveValidated_def applyBatch_calls split: if_splits option.splits)

lemma handle_cases:
  assumes "validateBody b = Inr req"
  shows "(\<exists>st msg. handlePostMonthly env db u (Some b) = reject db st msg)
       \<or> (\<exists>v. validateOps env (sr_month_key req) (sr_ops req) = Inr v
             \<and> handlePostMonthly env db u (Some b) = saveValidated env db u req v)"
  using assms by (auto simp: handlePostMonthly_def split: sum.splits)

lemma handle_batch:
  assumes body: "validateBody b = Inr req"
    and editable: "sr_month_key req \<in> set (getEditableMonthKeys env)"
    and ops: "validateOps env (sr_month_key req) (sr_ops req) = Inr v"
    and some: "totalOps v \<noteq> 0"
    and cats: "\<forall>c \<in> set (allCategoryIds v). c \<in> set (selectCategoryIds db u)"
    and ran: "batch (buildStatements (nowIso env) u (sr_month_key req) (sr_expected_version req) v) db
                = Some (db', rs)"
  shows "outcome (handlePostMonthly env db u (Some b)) =
           Returned (if rs ! 1 = 0 then conflictResponse
             else jsonResponse 200
               (SaveResponse (sr_month_key req) (plusOne (sr_expected_version req)) (appliedOf v)))
       \<and> database (handlePostMonthly env db u (Some b)) = db'"
proof -
  from saveValidated_applies [OF some cats] obtain issued where
    "saveValidated env db u req v = applyBatch env db u req v issued"
    by blast
  then show ?thesis
    by (simp add: handle_valid [OF body editable ops] applyBatch_Some [OF ran])
qed

lemma pred_div_mod:
  fixes a :: int
  shows "a mod 12 = 0 \<Longrightarrow> (a - 1) div 12 = a div 12 - 1 \<and> (a - 1) mod 12 = 11"
    and "a mod 12 \<noteq> 0 \<Longrightarrow> (a - 1) div 12 = a div 12 \<and> (a - 1) mod 12 = a mod 12 - 1"
proof -
  define q r where "q = a div 12" and "r = a mod 12"
  have a: "a = 12 * q + r" and range: "0 \<le> r" "r < 12"
    by (simp_all add: q_def r_def)
  {
    assume "a mod 12 = 0"
    then have "r = 0" by (simp add: r_def)
    with a have e: "a - 1 = 12 * (q - 1) + 11" by simp
    from int_div_pos_eq [OF e] int_mod_pos_eq [OF e]
    show "(a - 1) div 12 = a div 12 - 1 \<and> (a - 1) mod 12 = 11" by (simp add: q_def)
  }
  {
    assume "a mod 12 \<noteq> 0"
    then have "r \<noteq> 0" by (simp add: r_def)
    with range have r: "0 \<le> r - 1" "r - 1 < 12" by simp_all
    from a have e: "a - 1 = 12 * q + (r - 1)" by simp
    from int_div_pos_eq [OF e r] int_mod_pos_eq [OF e r]
    show "(a - 1) div 12 = a div 12 \<and> (a - 1) mod 12 = a mod 12 - 1" by (simp add: q_def r_def)
  }
qed

lemma prevMonth_iter:
  "(prevMonth ^^ i) (y, m) = (y + (m - 1 - int i) div 12, (m - 1 - int i) mod 12 + 1)"
  if "1 \<le> m" "m \<le> 12"
proof (induction i)
  case 0
  from that show ?case by simp
next
  case (Suc i)
  let ?a = "m - 1 - int i"
  have step: "prevMonth (y + ?a div 12, ?a mod 12 + 1) = (y + (?a - 1) div 12, (?a - 1) mod 12 + 1)"
    using pred_div_mod [of ?a] by (cases "?a mod 12 = 0") simp_all
  have "m - 1 - int (Suc i) = ?a - 1" by simp
  with Suc step show ?case by (simp del: prevMonth.simps)
qed

lemma monthKeyAt_window:
  assumes "0 \<le> nowMonth env" "nowMonth env \<le> 11" "99 < nowFullYear env"
  shows "monthKeyAt env (int i) = monthKeyOf ((prevMonth ^^ i) (nowFullYear env, nowMonth env + 1))"
  using assms by (simp add: prevMonth_iter monthKeyAt_def monthKeyOf_def DateYM_def)

lemma keys_window:
  assumes "0 \<le> nowMonth env" "nowMonth env \<le> 11" "99 < nowFullYear env"
  shows "getEditableMonthKeys env = editableWindow (nowFullYear env) (nowMonth env + 1)"
proof -
  have "[0, 1, 2, 3, 4, 5] = map int [0..<6]"
    by (simp add: upt_rec)
  then have "getEditableMonthKeys env = map (\<lambda>i. monthKeyAt env (int i)) [0..<6]"
    by (simp add: getEditableMonthKeys_def comp_def)
  then show ?thesis
    by (simp add: editableWindow_def monthKeyAt_window [OF assms])
qed

lemma createLoop_env:
  "randomUUID env' = randomUUID env \<Longrightarrow> createLoop env' k mk es = createLoop env k mk es"
  by (induction es arbitrary: k) (auto split: sum.splits)

lemma createLoop_day: "createLoop (env\<lparr>nowDate := d\<rparr>) k mk = createLoop env k mk"
  by (rule ext, rule createLoop_env) simp

lemma validateOps_day: "validateOps (env\<lparr>nowDate := d\<rparr>) mk ops = validateOps env mk ops"
  by (simp only: validateOps_def createLoop_day)

lemma applyBatch_day: "applyBatch (env\<lparr>nowDate := d\<rparr>) db u req v issued = applyBatch env db u req v issued"
  by (simp add: applyBatch_def)

lemma saveValidated_day:
  "saveValidated (env\<lparr>nowDate := d\<rparr>) db u req v = saveValidated env db u req v"
  by (simp only: saveValidated_def applyBatch_day)

lemma keys_day: "getEditableMonthKeys (env\<lparr>nowDate := d\<rparr>) = getEditableMonthKeys env"
  by (simp add: getEditableMonthKeys_def monthKeyAt_def)

lemma handle_day:
  "handlePostMonthly (env\<lparr>nowDate := d\<rparr>) db u request = handlePostMonthly env db u request"
  by (simp only: handlePostMonthly_def keys_day validateOps_day saveValidated_day)

lemma saveValidated_cases:
  "saveValidated env db u req v =
     \<lparr>outcome = Returned (jsonResponse 200
              (SaveResponse (sr_month_key req) (sr_expected_version req) noApplied)),
      database = db, calls = []\<rparr>
   \<or> (\<exists>cid. saveValidated env db u req v =
         \<lparr>outcome = Returned (errorResponse 400 (''Invalid category_id: '' @ cid)),
          database = db, calls = [CategoryQuery u]\<rparr>)
   \<or> (\<exists>issued. saveValidated env db u req v = applyBatch env db u req v issued)"
proof (cases "totalOps v = 0")
  case True
  then show ?thesis by (simp add: saveValidated_def)
next
  case some: False
  show ?thesis
  proof (cases "allCategoryIds v = []")
    case True
    with some have "saveValidated env db u req v = applyBatch env db u req v []"
      by (simp add: saveValidated_def)
    then show ?thesis by blast
  next
    case False
    show ?thesis
    proof (cases "find (\<lambda>cid. cid \<notin> set (selectCategoryIds db u)) (allCategoryIds v)")
      case None
      with some False have "saveValidated env db u req v = applyBatch env db u req v [CategoryQuery u]"
        by (simp add: saveValidated_def)
      then show ?thesis by blast
    next
      case (Some cid)
      with some False have "saveValidated env db u req v =
         \<lparr>outcome = Returned (errorResponse 400 (''Invalid category_id: '' @ cid)),
          database = db, calls = [CategoryQuery u]\<rparr>"
        by (simp add: saveValidated_def)
      then show ?thesis by blast
    qed
  qed
qed

lemma applyBatch_status:
  assumes "outcome (applyBatch env db u req v issued) = Returned r"
  shows "status r = 200 \<or> status r = 409"
proof (cases "batch (buildStatements (nowIso env) u (sr_month_key req) (sr_expected_version req) v) db")
  case None
  with assms show ?thesis by (simp add: applyBatch_None)
next
  case (Some p)
  obtain db' rs where "p = (db', rs)" by (cases p)
  with Some assms show ?thesis
    by (cases "rs ! 1 = 0") (auto simp: applyBatch_Some conflictResponse_def jsonResponse_def)
qed

lemma saveValidated_status:
  assumes "outcome (saveValidated env db u req v) = Returned r"
  shows "status r = 200 \<or> status r = 400 \<or> status r = 409"
proof -
  consider
    (noop) "saveValidated env db u req v =
       \<lparr>outcome = Returned (jsonResponse 200
              (SaveResponse (sr_month_key req) (sr_expected_version req) noApplied)),
        database = db, calls = []\<rparr>"
  | (cat) cid where "saveValidated env db u req v =
         \<lparr>outcome = Returned (errorResponse 400 (''Invalid category_id: '' @ cid)),
          database = db, calls = [CategoryQuery u]\<rparr>"
  | (run) issued where "saveValidated env db u req v = applyBatch env db u req v issued"
    using saveValidated_cases [of env db u req v] by blast
  then show ?thesis
  proof cases
    case noop
    with assms have "r = jsonResponse 200
              (SaveResponse (sr_month_key req) (sr_expected_version req) noApplied)" by simp
    then show ?thesis by (simp add: jsonResponse_def)
  next
    case cat
    with assms have "r = errorResponse 400 (''Invalid category_id: '' @ cid)" by simp
    then show ?thesis by (simp add: errorResponse_def)
  next
    case run
    with assms have "outcome (applyBatch env db u req v issued) = Returned r" by simp
    from applyBatch_status [OF this] show ?thesis by blast
  qed
qed

lemma oldBody_valid:
  "validateBody oldBody =
     Inr \<lparr>sr_month_key = ''2025-08'', sr_expected_version = 0, sr_ops = JObj []\<rparr>"
  by (simp add: validateBody_def oldBody_def MONTH_KEY_RE_def isDigit_def monthPart_def
      isInteger_def)

lemma present_iff: "present x = (x \<noteq> None \<and> x \<noteq> Some JNull)"
  by (cases x rule: present.cases) simp_all

lemma validateCreateEntry_Inr:
  assumes "validateCreateEntry e mk = Inr v"
  shows "isObject (Some e) \<and> \<not> entryIdViolation e \<and> \<not> dateViolation e mk \<and> \<not> typeViolation e
       \<and> \<not> amountViolation e \<and> \<not> categoryViolation e \<and> \<not> paymentViolation e
       \<and> getProp e ''date'' = Some (JStr (ce_date v))
       \<and> ce_entry_id v = stringOrNull (getProp e ''entry_id'')
       \<and> ce_memo v = stringOrNull (getProp e ''memo'')"
proof -
  from assms have obj: "isObject (Some e)"
    by (auto simp: validateCreateEntry_def split: if_splits)
  from assms obj have idok: "\<not> entryIdViolation e"
    by (auto simp: validateCreateEntry_def entryIdViolation_def present_iff
        split: if_splits option.splits json.splits)
  from assms obtain d where d: "getProp e ''date'' = Some (JStr d)"
    by (cases "getProp e ''date''"; cases "the (getProp e ''date'')")
       (auto simp: validateCreateEntry_def split: if_splits)
  from assms d have dok: "DATE_RE d" "dateMatchesMonthKey d mk"
    by (auto simp: validateCreateEntry_def split: if_splits)
  from assms obtain t where t: "getProp e ''type'' = Some (JStr t)"
    by (cases "getProp e ''type''"; cases "the (getProp e ''type'')")
       (auto simp: validateCreateEntry_def d split: if_splits)
  from assms d t have tok: "t \<in> set VALID_TYPES"
    by (auto simp: validateCreateEntry_def split: if_splits)
  from assms obtain a where a: "getProp e ''amount'' = Some (JNum a)"
    by (cases "getProp e ''amount''"; cases "the (getProp e ''amount'')")
       (auto simp: validateCreateEntry_def d t split: if_splits)
  from assms d t a have aok: "isInteger a" "0 < a"
    by (auto simp: validateCreateEntry_def split: if_splits)
  from assms obtain c where c: "getProp e ''category_id'' = Some (JStr c)"
    by (cases "getProp e ''category_id''"; cases "the (getProp e ''category_id'')")
       (auto simp: validateCreateEntry_def d t a split: if_splits)
  from assms d t a c have cok: "c \<noteq> []"
    by (auto simp: validateCreateEntry_def split: if_splits)
  from assms d t a c dok tok aok cok obj have pok: "\<not> paymentViolation e"
    by (auto simp: validateCreateEntry_def paymentViolation_def present_iff
        split: if_splits option.splits json.splits)
  from assms d t a c have v: "ce_date v = d" "ce_entry_id v = stringOrNull (getProp e ''entry_id'')"
      "ce_memo v = stringOrNull (getProp e ''memo'')"
    by (auto simp: validateCreateEntry_def split: if_splits)
  from obj idok d dok t tok a aok c cok pok v show ?thesis
    by (simp add: dateViolation_def typeViolation_def amountViolation_def categoryViolation_def
        VALID_TYPES_def)
qed

lemma not_JStr:
  "(\<And>s. x \<noteq> Some (JStr s)) \<Longrightarrow> (case x of Some (JStr s) \<Rightarrow> f s | _ \<Rightarrow> g) = g"
  by (cases x; cases "the x") auto

lemma not_JNum:
  "(\<And>s. x \<noteq> Some (JNum s)) \<Longrightarrow> (case x of Some (JNum s) \<Rightarrow> f s | _ \<Rightarrow> g) = g"
  by (cases x; cases "the x") auto

lemma entryIdViolation_iff:
  "entryIdViolation e = (present (getProp e ''entry_id'') \<and> stringOrNull (getProp e ''entry_id'') = None)"
  by (cases "getProp e ''entry_id''"; cases "the (getProp e ''entry_id'')")
     (auto simp: entryIdViolation_def)

lemma paymentViolation_iff:
  "paymentViolation e = (present (getProp e ''payment_method'')
      \<and> (case getProp e ''payment_method'' of
            Some (JStr p) \<Rightarrow> p \<notin> set VALID_PAYMENT_METHODS
          | _ \<Rightarrow> True))"
  by (cases "getProp e ''payment_method''"; cases "the (getProp e ''payment_method'')")
     (auto simp: paymentViolation_def)

lemma validateCreateEntry_Inl:
  assumes "validateCreateEntry e mk = Inl m"
  shows "createMessage m e mk"
proof (cases "isObject (Some e)")
  case False
  with assms show ?thesis by (simp add: validateCreateEntry_def createMessage_def)
next
  case obj: True
  show ?thesis
  proof (cases "entryIdViolation e")
    case True
    with assms obj show ?thesis
      by (simp add: validateCreateEntry_def createMessage_def entryIdViolation_iff)
  next
    case idok: False
    note pre1 = obj idok [unfolded entryIdViolation_iff]
    show ?thesis
    proof (cases "\<exists>d. getProp e ''date'' = Some (JStr d)")
      case False
      then have "dateViolation e mk" by (simp add: dateViolation_def not_JStr)
      moreover from False assms pre1 have "m = ''date must be YYYY-MM-DD.''"
        by (simp add: validateCreateEntry_def not_JStr)
      ultimately show ?thesis by (simp add: createMessage_def)
    next
      case True
      then obtain d where d: "getProp e ''date'' = Some (JStr d)" ..
      show ?thesis
      proof (cases "DATE_RE d \<and> dateMatchesMonthKey d mk")
        case False
        with d have "dateViolation e mk" by (simp add: dateViolation_def)
        moreover from False assms pre1 d
        have "m = ''date must be YYYY-MM-DD.'' \<or> m = dateMismatch d mk"
          by (auto simp: validateCreateEntry_def split: if_splits)
        ultimately show ?thesis using d by (auto simp: createMessage_def)
      next
        case dok: True
        show ?thesis
        proof (cases "\<exists>t. getProp e ''type'' = Some (JStr t) \<and> t \<in> set VALID_TYPES")
          case False
          then have "typeViolation e"
            by (cases "getProp e ''type''"; cases "the (getProp e ''type'')")
               (auto simp: typeViolation_def VALID_TYPES_def)
          moreover from False assms pre1 d dok have "m = ''type must be 'expense' or 'income'.''"
            by (cases "getProp e ''type''"; cases "the (getProp e ''type'')")
               (auto simp: validateCreateEntry_def split: if_splits)
          ultimately show ?thesis by (simp add: createMessage_def)
        next
          case True
          then obtain t where t: "getProp e ''type'' = Some (JStr t)" "t \<in> set VALID_TYPES"
            by blast
          show ?thesis
          proof (cases "\<exists>a. getProp e ''amount'' = Some (JNum a) \<and> isInteger a \<and> 0 < a")
            case False
            then have "amountViolation e"
              by (cases "getProp e ''amount''"; cases "the (getProp e ''amount'')")
                 (auto simp: amountViolation_def)
            moreover from False assms pre1 d dok t have "m = ''amount must be a positive integer.''"
              by (cases "getProp e ''amount''"; cases "the (getProp e ''amount'')")
                 (auto simp: validateCreateEntry_def split: if_splits)
            ultimately show ?thesis by (simp add: createMessage_def)
          next
            case True
            then obtain a where a: "getProp e ''amount'' = Some (JNum a)" "isInteger a" "0 < a"
              by blast
            show ?thesis
            proof (cases "\<exists>c. getProp e ''category_id'' = Some (JStr c) \<and> c \<noteq> []")
              case False
              then have "categoryViolation e"
                by (cases "getProp e ''category_id''"; cases "the (getProp e ''category_id'')")
                   (auto simp: categoryViolation_def)
              moreover from False assms pre1 d dok t a have "m = ''category_id is required.''"
                by (cases "getProp e ''category_id''"; cases "the (getProp e ''category_id'')")
                   (auto simp: validateCreateEntry_def split: if_splits)
              ultimately show ?thesis by (simp add: createMessage_def)
            next
              case True
              then obtain c where c: "getProp e ''category_id'' = Some (JStr c)" "c \<noteq> []"
                by blast
              from assms pre1 d dok t a c
              have "paymentViolation e \<and> m = ''Invalid payment_method.''"
                by (simp add: validateCreateEntry_def paymentViolation_iff split: if_splits)
              then show ?thesis by (simp add: createMessage_def)
            qed
          qed
        qed
      qed
    qed
  qed
qed




lemma createLoop_isl:
  "e \<in> set es \<Longrightarrow> isl (validateCreateEntry e mk) \<Longrightarrow> isl (createLoop env k mk es)"
proof (induction es arbitrary: k)
  case Nil
  then show ?case by simp
next
  case (Cons x es)
  show ?case
  proof (cases "validateCreateEntry x mk")
    case (Inl a)
    then show ?thesis by simp
  next
    case (Inr v)
    with Cons.prems have "e \<in> set es" by auto
    from Cons.IH [OF this Cons.prems(2), of "if needsId v then Suc k else k"] Inr
    show ?thesis by (cases "createLoop env (if needsId v then Suc k else k) mk es") simp_all
  qed
qed










lemma DATE_RE_shape:
  assumes "DATE_RE d"
  obtains y1 y2 y3 y4 m1 m2 d1 d2 where
    "d = [y1, y2, y3, y4, CHR ''-'', m1, m2, CHR ''-'', d1, d2]" "dayPart d1 d2"
  using assms by (auto simp: DATE_RE_def split: list.splits)

lemma MONTH_KEY_RE_length: "MONTH_KEY_RE mk \<Longrightarrow> length mk = 7"
  by (auto simp: MONTH_KEY_RE_def split: list.splits)

lemma digitVal_digits [simp]:
  "digitVal CHR ''0'' = 0" "digitVal CHR ''1'' = 1" "digitVal CHR ''2'' = 2"
  "digitVal CHR ''3'' = 3" "digitVal CHR ''4'' = 4" "digitVal CHR ''5'' = 5"
  "digitVal CHR ''6'' = 6" "digitVal CHR ''7'' = 7" "digitVal CHR ''8'' = 8"
  "digitVal CHR ''9'' = 9"
  by (simp_all add: digitVal_def)

lemma digitVal_le: "isDigit c \<Longrightarrow> digitVal c \<le> 9"
  by (auto simp: isDigit_def)

lemma dayPart_range: "dayPart a b \<Longrightarrow> 1 \<le> numberOf [a, b] \<and> numberOf [a, b] \<le> 31"
  unfolding dayPart_def numberOf_def
  by (elim disjE conjE) (auto dest: digitVal_le)

lemma validateBody_month_key: "validateBody b = Inr req \<Longrightarrow> MONTH_KEY_RE (sr_month_key req)"
  by (auto simp: validateBody_def split: if_splits option.splits json.splits)

lemma date_checks:
  assumes mk: "MONTH_KEY_RE mk" and re: "DATE_RE d" and pre: "dateMatchesMonthKey d mk"
  shows "acceptedDate mk d"
proof -
  from re obtain y1 y2 y3 y4 m1 m2 d1 d2 where
    d: "d = [y1, y2, y3, y4, CHR ''-'', m1, m2, CHR ''-'', d1, d2]" and day: "dayPart d1 d2"
    by (rule DATE_RE_shape)
  from pre have "take (length mk + 1) d = mk @ ''-''"
    by (simp add: dateMatchesMonthKey_def startsWith_def)
  then have "take 8 d = mk @ ''-''"
    by (simp add: MONTH_KEY_RE_length [OF mk])
  then have "take 7 (take 8 d) = take 7 (mk @ ''-'')" by simp
  then have "take 7 d = mk"
    by (simp add: MONTH_KEY_RE_length [OF mk])
  moreover from d have "dayOf d = numberOf [d1, d2]"
    by (simp add: dayOf_def)
  ultimately show ?thesis using re dayPart_range [OF day]
    by (simp add: acceptedDate_def)
qed

lemma validateEach_all:
  "validateEach f xs = Inr vs \<Longrightarrow> x \<in> set xs \<Longrightarrow> \<not> isl (f x)"
  by (induction xs arbitrary: vs) (auto split: sum.splits)

lemma createLoop_all:
  "createLoop env k mk es = Inr vs \<Longrightarrow> e \<in> set es \<Longrightarrow> \<not> isl (validateCreateEntry e mk)"
  using createLoop_isl [of e es mk env k] by auto

lemma validateCreateEntry_date:
  assumes "\<not> isl (validateCreateEntry e mk)"
  shows "\<exists>d. getProp e ''date'' = Some (JStr d) \<and> DATE_RE d \<and> dateMatchesMonthKey d mk"
proof -
  from assms obtain v where v: "validateCreateEntry e mk = Inr v"
    by (cases "validateCreateEntry e mk") simp_all
  from validateCreateEntry_Inr [OF v] show ?thesis
    by (auto simp: dateViolation_def)
qed

lemma validateUpdateEntry_date:
  assumes "\<not> isl (validateUpdateEntry e mk)"
  shows "\<exists>d. getProp e ''date'' = Some (JStr d) \<and> DATE_RE d \<and> dateMatchesMonthKey d mk"
proof -
  from assms have "\<not> isl (validateCreateEntry e mk)"
    by (cases "getProp e ''entry_id''"; cases "the (getProp e ''entry_id'')";
        cases "validateCreateEntry e mk")
       (auto simp: validateUpdateEntry_def split: if_splits)
  then show ?thesis by (rule validateCreateEntry_date)
qed

lemma validateUpsertDailyBudget_date:
  assumes "\<not> isl (validateUpsertDailyBudget e mk)"
  shows "\<exists>d. getProp e ''date'' = Some (JStr d) \<and> DATE_RE d \<and> dateMatchesMonthKey d mk"
  using assms
  by (cases "getProp e ''date''"; cases "the (getProp e ''date'')")
     (auto simp: validateUpsertDailyBudget_def split: if_splits)

lemma validateDeleteDate_date:
  assumes "\<not> isl (validateDeleteDate mk j)"
  shows "\<exists>d. j = JStr d \<and> DATE_RE d \<and> dateMatchesMonthKey d mk"
  using assms by (cases j) (auto simp: validateDeleteDate_def split: if_splits)

lemma opsArray_same:
  "opsArray ops name msg = Inr ys \<Longrightarrow> getProp ops name = Some (JArr xs) \<Longrightarrow> ys = xs"
  by (simp add: opsArray_def)

lemma accepted_ops:
  assumes body: "validateBody b = Inr req"
    and out: "outcome (handlePostMonthly env db u (Some b)) = Returned r"
    and ok: "status r = 200"
  shows "\<exists>v. validateOps env (sr_month_key req) (sr_ops req) = Inr v"
proof (cases "validateOps env (sr_month_key req) (sr_ops req)")
  case (Inr v)
  then show ?thesis by blast
next
  case (Inl m)
  have False
  proof (cases "sr_month_key req \<in> set (getEditableMonthKeys env)")
    case False
    from handle_readonly [OF body False, of db u] out ok show False
      by (auto simp: reject_def errorResponse_def)
  next
    case True
    from handle_invalid_ops [OF body True Inl, of db u] out ok show False
      by (auto simp: reject_def errorResponse_def)
  qed
  then show ?thesis ..
qed

lemma feb_valid:
  "validateBody febBody = Inr \<lparr>sr_month_key = ''2026-02'', sr_expected_version = 0,
     sr_ops = JObj [(''create_entries'', JArr [febEntry])]\<rparr>"
  by (simp add: febBody_def body_defs)

lemma feb_ops:
  "validateOps exEnv ''2026-02'' (JObj [(''create_entries'', JArr [febEntry])]) =
     Inr \<lparr>createEntries = [febCreate], updateEntries = [], deleteEntryIds = [],
          upsertDailyBudgets = [], deleteDailyBudgetDates = []\<rparr>"
  by (simp add: ops_defs body_defs exEnv_def febEntry_def febCreate_def)

lemma feb_batch:
  "batch (buildStatements (nowIso exEnv) ''u1'' ''2026-02'' 0
       \<lparr>createEntries = [febCreate], updateEntries = [], deleteEntryIds = [],
          upsertDailyBudgets = [], deleteDailyBudgetDates = []\<rparr>) exDb =
   Some (exDb\<lparr>months := [\<lparr>m_user_id = ''u1'', m_month_key = ''2026-02'', m_version = 1,
              m_monthly_budget = None, m_cutoff_type = ''calendar'', m_cutoff_day = None,
              m_updated_at = ''2026-02-15 10:00:00''\<rparr>],
           entries := [groceriesRow\<lparr>e_date := ''2026-02-30''\<rparr>]\<rparr>, [1, 1, 1])"
  by (simp add: buildStatements_def febCreate_def groceriesRow_def exDb_def
      exEnv_def hasMonth_def hasUser_def hasCategory_def isMonth_def bump_def)

lemma feb_run:
  "outcome (handlePostMonthly exEnv exDb ''u1'' (Some febBody)) =
       Returned \<lparr>status = 200, payload = SaveResponse ''2026-02'' 1
         \<lparr>created_entries = 1, updated_entries = 0, deleted_entries = 0,
          upserted_daily_budgets = 0, deleted_daily_budgets = 0\<rparr>\<rparr>
   \<and> map e_date (entries (database (handlePostMonthly exEnv exDb ''u1'' (Some febBody))))
       = [''2026-02-30'']"
proof -
  let ?req = "\<lparr>sr_month_key = ''2026-02'', sr_expected_version = 0,
     sr_ops = JObj [(''create_entries'', JArr [febEntry])]\<rparr>"
  let ?v = "\<lparr>createEntries = [febCreate], updateEntries = [], deleteEntryIds = [],
          upsertDailyBudgets = [], deleteDailyBudgetDates = []\<rparr>"
  have editable: "sr_month_key ?req \<in> set (getEditableMonthKeys exEnv)"
    by (simp add: exEnv_keys)
  have ops: "validateOps exEnv (sr_month_key ?req) (sr_ops ?req) = Inr ?v"
    by (simp add: feb_ops)
  have some: "totalOps ?v \<noteq> 0"
    by (simp add: totalOps_def)
  have cats: "\<forall>c \<in> set (allCategoryIds ?v). c \<in> set (selectCategoryIds exDb ''u1'')"
    by (simp add: allCategoryIds_def setAdd_def febCreate_def selectCategoryIds_def exDb_def)
  have ran: "batch (buildStatements (nowIso exEnv) ''u1'' (sr_month_key ?req)
               (sr_expected_version ?req) ?v) exDb =
             Some (exDb\<lparr>months := [\<lparr>m_user_id = ''u1'', m_month_key = ''2026-02'', m_version = 1,
              m_monthly_budget = None, m_cutoff_type = ''calendar'', m_cutoff_day = None,
              m_updated_at = ''2026-02-15 10:00:00''\<rparr>],
           entries := [groceriesRow\<lparr>e_date := ''2026-02-30''\<rparr>]\<rparr>, [1, 1, 1])"
    by (simp add: feb_batch)
  from handle_batch [OF feb_valid editable ops some cats ran] show ?thesis
    by (simp add: jsonResponse_def appliedOf_def groceriesRow_def plusOne_def)
qed

lemma feb_not_calendar: "\<not> inCalendarMonth ''2026-02-30'' ''2026-02''"
  by (simp add: inCalendarMonth_def dayOf_def numberOf_def daysInMonth_def leapYear_def)

lemma createLoop_ids:
  "createLoop env k mk es = Inr vs \<Longrightarrow>
   \<exists>ws. validateEach (\<lambda>e. validateCreateEntry e mk) es = Inr ws
      \<and> length vs = length ws
      \<and> (\<forall>j < length ws. vs ! j =
            (if needsId (ws ! j)
             then (ws ! j)\<lparr>ce_entry_id := Some (randomUUID env (k + length (filter needsId (take j ws))))\<rparr>
             else ws ! j))"
proof (induction es arbitrary: k vs)
  case Nil
  then show ?case by simp
next
  case (Cons e es)
  from Cons.prems obtain w where w: "validateCreateEntry e mk = Inr w"
    by (cases "validateCreateEntry e mk") simp_all
  let ?k = "if needsId w then Suc k else k"
  from Cons.prems w obtain vs' where
    vs': "createLoop env ?k mk es = Inr vs'"
    and vs: "vs = (if needsId w then w\<lparr>ce_entry_id := Some (randomUUID env k)\<rparr> else w) # vs'"
    by (cases "createLoop env ?k mk es") auto
  from Cons.IH [OF vs'] obtain ws where
    ws: "validateEach (\<lambda>e. validateCreateEntry e mk) es = Inr ws" "length vs' = length ws"
      "\<forall>j < length ws. vs' ! j =
            (if needsId (ws ! j)
             then (ws ! j)\<lparr>ce_entry_id := Some (randomUUID env (?k + length (filter needsId (take j ws))))\<rparr>
             else ws ! j)"
    by blast
  have "validateEach (\<lambda>e. validateCreateEntry e mk) (e # es) = Inr (w # ws)"
    by (simp add: w ws(1))
  moreover have "length vs = length (w # ws)"
    by (simp add: vs ws(2))
  moreover have "vs ! j =
            (if needsId ((w # ws) ! j)
             then ((w # ws) ! j)\<lparr>ce_entry_id :=
                    Some (randomUUID env (k + length (filter needsId (take j (w # ws)))))\<rparr>
             else (w # ws) ! j)" if "j < length (w # ws)" for j
  proof (cases j)
    case 0
    then show ?thesis by (simp add: vs)
  next
    case (Suc i)
    with that have "i < length ws" by simp
    with ws(3) have "vs' ! i =
            (if needsId (ws ! i)
             then (ws ! i)\<lparr>ce_entry_id := Some (randomUUID env (?k + length (filter needsId (take i ws))))\<rparr>
             else ws ! i)" by blast
    with Suc show ?thesis by (simp add: vs)
  qed
  ultimately show ?case by blast
qed

lemma createLoop_assigned:
  "\<forall>k. randomUUID env k \<noteq> [] \<Longrightarrow> createLoop env k mk es = Inr vs \<Longrightarrow>
   list_all (\<lambda>v. \<not> needsId v) vs"
proof (induction es arbitrary: k vs)
  case Nil
  then show ?case by simp
next
  case (Cons e es)
  from Cons.prems(2) obtain w where w: "validateCreateEntry e mk = Inr w"
    by (cases "validateCreateEntry e mk") simp_all
  let ?k = "if needsId w then Suc k else k"
  from Cons.prems(2) w obtain vs' where
    vs': "createLoop env ?k mk es = Inr vs'"
    and vs: "vs = (if needsId w then w\<lparr>ce_entry_id := Some (randomUUID env k)\<rparr> else w) # vs'"
    by (cases "createLoop env ?k mk es") auto
  from Cons.IH [OF Cons.prems(1) vs'] Cons.prems(1) show ?case
    by (simp add: vs needsId_def)
qed

lemma buildStatements_ids:
  "list_all (\<lambda>v. \<not> needsId v) (createEntries v) \<Longrightarrow>
   list_all insertHasId (buildStatements now u mk ev v)"
  by (auto simp: buildStatements_def list_all_iff needsId_def split: option.splits)

lemma createLoop_Inl_env:
  "(createLoop env k mk es = Inl m) = (createLoop env' k' mk es = Inl m)"
proof (induction es arbitrary: k k')
  case Nil
  then show ?case by simp
next
  case (Cons e es)
  show ?case
  proof (cases "validateCreateEntry e mk")
    case (Inl a)
    then show ?thesis by simp
  next
    case (Inr w)
    let ?k = "if needsId w then Suc k else k"
    let ?k' = "if needsId w then Suc k' else k'"
    from Cons.IH [of ?k ?k'] Inr show ?thesis
      by (cases "createLoop env ?k mk es"; cases "createLoop env' ?k' mk es") simp_all
  qed
qed

lemma createLoop_isl_env: "isl (createLoop env k mk es) = isl (createLoop env' k' mk es)"
proof (cases "createLoop env k mk es")
  case (Inl a)
  with createLoop_Inl_env [of env k mk es a env' k'] show ?thesis by simp
next
  case (Inr vs)
  show ?thesis
  proof (cases "createLoop env' k' mk es")
    case (Inl a)
    with createLoop_Inl_env [of env k mk es a env' k'] Inr show ?thesis by simp
  next
    case (Inr vs')
    with \<open>createLoop env k mk es = Inr vs\<close> show ?thesis by simp
  qed
qed

lemma andThen_Inl_cong:
  "(\<And>x. (f x = Inl m) = (g x = Inl m)) \<Longrightarrow> (andThen r f = Inl m) = (andThen r g = Inl m)"
  by (cases r) (simp_all add: andThen_def)

lemma validateOps_Inl_env:
  "(validateOps env mk ops = Inl m) = (validateOps env' mk ops = Inl m)"
proof -
  define R where "R = (\<lambda>cs.
     andThen (andThen (opsArray ops ''update_entries'' ''update_entries must be an array.'')
                (validateEach (\<lambda>e. validateUpdateEntry e mk))) (\<lambda>us.
     andThen (andThen (opsArray ops ''delete_entry_ids'' ''delete_entry_ids must be an array.'')
                (validateEach validateDeleteId)) (\<lambda>ds.
     andThen (andThen (opsArray ops ''upsert_daily_budgets'' ''upsert_daily_budgets must be an array.'')
                (validateEach (\<lambda>d. validateUpsertDailyBudget d mk))) (\<lambda>bs.
     andThen (andThen (opsArray ops ''delete_daily_budget_dates''
                ''delete_daily_budget_dates must be an array.'')
                (validateEach (validateDeleteDate mk))) (\<lambda>dds.
     Inr \<lparr>createEntries = cs, updateEntries = us, deleteEntryIds = ds,
          upsertDailyBudgets = bs, deleteDailyBudgetDates = dds\<rparr>)))))"
  define C where "C = (\<lambda>env. andThen (opsArray ops ''create_entries'' ''create_entries must be an array.'')
                (createLoop env 0 mk))"
  have unfold: "validateOps env mk ops = andThen (C env) R" for env
    unfolding validateOps_def R_def C_def ..
  have R: "(R cs = Inl m) = (R cs' = Inl m)" for cs cs'
    unfolding R_def by (rule andThen_Inl_cong)+ simp
  have C: "(C env = Inl m) = (C env' = Inl m) \<and> isl (C env) = isl (C env')"
  proof (cases "opsArray ops ''create_entries'' ''create_entries must be an array.''")
    case (Inl a)
    then show ?thesis by (simp add: C_def andThen_def)
  next
    case (Inr xs)
    then have "C env = createLoop env 0 mk xs" "C env' = createLoop env' 0 mk xs"
      by (simp_all add: C_def andThen_def)
    with createLoop_Inl_env [of env 0 mk xs m env' 0] createLoop_isl_env [of env 0 mk xs env' 0]
    show ?thesis by simp
  qed
  show ?thesis
  proof (cases "C env")
    case (Inl a)
    with C obtain a' where "C env' = Inl a'" by (cases "C env'") simp_all
    with Inl C show ?thesis by (simp add: unfold andThen_def)
  next
    case (Inr cs)
    with C obtain cs' where "C env' = Inr cs'" by (cases "C env'") simp_all
    with Inr R [of cs cs'] show ?thesis by (simp add: unfold andThen_def)
  qed
qed

lemma valid_element:
  assumes "isObject (Some e)" "\<not> entryIdViolation e" "\<not> dateViolation e mk" "\<not> typeViolation e"
    "\<not> amountViolation e" "\<not> categoryViolation e" "\<not> paymentViolation e"
  shows "\<exists>w. validateCreateEntry e mk = Inr w"
proof (cases "validateCreateEntry e mk")
  case (Inl m)
  from validateCreateEntry_Inl [OF Inl] assms show ?thesis
    by (auto simp: createMessage_def)
next
  case (Inr w)
  then show ?thesis by blast
qed

lemma idAbsentOrEmpty_needsId:
  assumes "idAbsentOrEmpty e" "validateCreateEntry e mk = Inr w"
  shows "needsId w"
proof -
  from validateCreateEntry_Inr [OF assms(2)]
  have "ce_entry_id w = stringOrNull (getProp e ''entry_id'')" by simp
  with assms(1) show ?thesis
    by (cases "getProp e ''entry_id''"; cases "the (getProp e ''entry_id'')")
       (auto simp: idAbsentOrEmpty_def needsId_def)
qed

lemma idAbsentOrEmpty_ok: "idAbsentOrEmpty e \<Longrightarrow> \<not> entryIdViolation e"
  by (cases "getProp e ''entry_id''"; cases "the (getProp e ''entry_id'')")
     (auto simp: idAbsentOrEmpty_def entryIdViolation_def)

lemma ids_ops: "validateOps exEnv ''2026-02'' idsOps = Inr idsValidated"
  by (simp add: ops_defs body_defs exEnv_def idsOps_def idsValidated_def groceries_def
      groceriesEntry_def)

lemma validateBody_version: "validateBody b = Inr req \<Longrightarrow> 0 \<le> sr_expected_version req"
  by (cases "getProp b ''month_key''"; cases "the (getProp b ''month_key'')";
      cases "getProp b ''expected_version''"; cases "the (getProp b ''expected_version'')";
      cases "getProp b ''ops''")
     (auto simp: validateBody_def split: if_splits)

lemma big_valid:
  "validateBody (createBody 9007199254740992) =
     Inr \<lparr>sr_month_key = ''2026-02'', sr_expected_version = 9007199254740992,
          sr_ops = JObj [(''create_entries'', JArr [groceries])]\<rparr>"
  by (simp add: createBody_def body_defs)

lemma big_batch:
  "batch (buildStatements (nowIso exEnv) ''u1'' ''2026-02'' 9007199254740992
       \<lparr>createEntries = [groceriesEntry], updateEntries = [], deleteEntryIds = [],
          upsertDailyBudgets = [], deleteDailyBudgetDates = []\<rparr>) bigDb =
   Some (bigDb\<lparr>months := [\<lparr>m_user_id = ''u1'', m_month_key = ''2026-02'',
                m_version = 9007199254740993, m_monthly_budget = None,
                m_cutoff_type = ''calendar'', m_cutoff_day = None,
                m_updated_at = ''2026-02-15 10:00:00''\<rparr>],
           entries := [groceriesRow]\<rparr>, [0, 1, 1])"
  by (simp add: buildStatements_def groceriesEntry_def groceriesRow_def bigDb_def exDb_def
      exEnv_def hasMonth_def hasUser_def hasCategory_def isMonth_def bump_def)

lemma exec_reach:
  assumes bound: "boundTo u mk ids s" and ran: "exec s db = Some (db', n)"
  shows "\<exists>added. filter (outOfReach u mk ids) (entries db')
                  = filter (outOfReach u mk ids) (entries db) @ added
               \<and> list_all (ownEntry u mk) added"
proof (cases s)
  case (InsertEntry i u' mk' d t a c memo pm created updated)
  with bound have scope: "u' = u" "mk' = mk" by simp_all
  from ran InsertEntry obtain row where
    "entries db' = entries db @ [row]" "e_user_id row = u'" "e_month_key row = mk'"
    by (auto split: option.splits if_splits)
  with scope have "filter (outOfReach u mk ids) (entries db')
      = filter (outOfReach u mk ids) (entries db) @ filter (outOfReach u mk ids) [row]"
    and "list_all (ownEntry u mk) (filter (outOfReach u mk ids) [row])"
    by (simp_all add: ownEntry_def)
  then show ?thesis by blast
next
  case (UpdateEntryRow d t a c memo pm now i u' mk')
  with bound have scope: "i \<in> set ids" "u' = u" "mk' = mk" by simp_all
  from ran UpdateEntryRow scope have "entries db' = map (\<lambda>r. if isEntry i u mk r
                   then r\<lparr>e_date := d, e_type := t, e_amount := a, e_category_id := c,
                          e_memo := memo, e_payment_method := pm, e_updated_at := now\<rparr>
                   else r) (entries db)"
    by (auto split: if_splits)
  with scope(1) have "filter (outOfReach u mk ids) (entries db')
      = filter (outOfReach u mk ids) (entries db)"
    by (auto intro!: filter_map_frame simp: outOfReach_def isEntry_def split: if_splits)
  then show ?thesis by simp
next
  case (DeleteEntryRow i u' mk')
  with bound have scope: "i \<in> set ids" "u' = u" "mk' = mk" by simp_all
  from ran DeleteEntryRow scope
  have "entries db' = filter (\<lambda>r. \<not> isEntry i u mk r) (entries db)"
    by auto
  then have "filter (outOfReach u mk ids) (entries db')
      = filter (outOfReach u mk ids) (filter (\<lambda>r. \<not> isEntry i u mk r) (entries db))"
    by (simp only:)
  also from scope(1) have "\<dots> = filter (outOfReach u mk ids) (entries db)"
    by (intro filter_filter_frame) (auto simp: outOfReach_def isEntry_def)
  finally show ?thesis by simp
next
  case (InsertMonthIfMissing u' mk' now)
  with ran have "entries db' = entries db" by (auto split: if_splits)
  then show ?thesis by simp
next
  case (BumpVersion now u' mk' expected)
  with ran have "entries db' = entries db" by auto
  then show ?thesis by simp
next
  case (UpsertBudget u' mk' d v created updated)
  with ran have "entries db' = entries db" by (auto split: if_splits)
  then show ?thesis by simp
next
  case (DeleteBudget u' mk' d)
  with ran have "entries db' = entries db" by auto
  then show ?thesis by simp
qed

lemma batch_reach:
  "list_all (boundTo u mk ids) ss \<Longrightarrow> batch ss db = Some (db', rs) \<Longrightarrow>
   \<exists>added. filter (outOfReach u mk ids) (entries db')
             = filter (outOfReach u mk ids) (entries db) @ added
          \<and> list_all (ownEntry u mk) added"
proof (induction ss arbitrary: db rs)
  case Nil
  then show ?case by simp
next
  case (Cons s ss)
  from Cons.prems obtain db1 n rs1 where
    first: "exec s db = Some (db1, n)" and rest: "batch ss db1 = Some (db', rs1)"
    by (auto split: option.splits prod.splits)
  from Cons.prems(1) have bound: "boundTo u mk ids s" and bounds: "list_all (boundTo u mk ids) ss"
    by simp_all
  from exec_reach [OF bound first] obtain a1 where
    a1: "filter (outOfReach u mk ids) (entries db1) = filter (outOfReach u mk ids) (entries db) @ a1"
      "list_all (ownEntry u mk) a1"
    by blast
  from Cons.IH [OF bounds rest] obtain a2 where
    a2: "filter (outOfReach u mk ids) (entries db') = filter (outOfReach u mk ids) (entries db1) @ a2"
      "list_all (ownEntry u mk) a2"
    by blast
  from a1 a2 have "filter (outOfReach u mk ids) (entries db')
      = filter (outOfReach u mk ids) (entries db) @ (a1 @ a2)"
    and "list_all (ownEntry u mk) (a1 @ a2)"
    by simp_all
  then show ?case by blast
qed

lemma buildStatements_bound:
  "list_all (boundTo u mk (listedIds v)) (buildStatements now u mk ev v)"
  by (simp add: buildStatements_def list_all_iff listedIds_def) auto

lemma touchedIds_append: "touchedIds (xs @ ys) = touchedIds xs @ touchedIds ys"
  by (induction xs rule: touchedIds.induct) simp_all

lemma touchedIds_inserts:
  "touchedIds (map (\<lambda>e. InsertEntry (f e) u mk (d e) (t e) (a e) (c e) (m e) (p e) now now') es)
     = []"
  by (induction es) simp_all

lemma touchedIds_updates:
  "touchedIds (map (\<lambda>e. UpdateEntryRow (d e) (t e) (a e) (c e) (m e) (p e) now (i e) u mk) es)
     = map i es"
  by (induction es) simp_all

lemma touchedIds_deletes: "touchedIds (map (\<lambda>i. DeleteEntryRow i u mk) es) = es"
  by (induction es) simp_all

lemma touchedIds_upserts:
  "touchedIds (map (\<lambda>e. UpsertBudget u mk (d e) (v e) now now') es) = []"
  by (induction es) simp_all

lemma touchedIds_budget_deletes: "touchedIds (map (\<lambda>d. DeleteBudget u mk d) es) = []"
  by (induction es) simp_all

lemma touchedIds_build: "touchedIds (buildStatements now u mk ev v) = listedIds v"
  by (simp add: buildStatements_def listedIds_def touchedIds_append touchedIds_inserts
      touchedIds_updates touchedIds_deletes touchedIds_upserts touchedIds_budget_deletes)

lemma sweep_valid:
  "validateBody sweepBody =
     Inr \<lparr>sr_month_key = ''2026-02'', sr_expected_version = 1, sr_ops = sweepOps\<rparr>"
  by (simp add: sweepBody_def sweepOps_def body_defs)

lemma sweep_ops: "validateOps env ''2026-02'' sweepOps = Inr sweepValidated"
  by (simp add: sweepOps_def sweepValidated_def ops_defs body_defs)

lemma sweep_batch:
  "batch (buildStatements (nowIso exEnv) ''u1'' ''2026-02'' 1 sweepValidated) crowdedDb =
   Some (crowdedDb\<lparr>months := map (bump ''2026-02-15 10:00:00'' ''u1'' ''2026-02'' 1)
                          (months crowdedDb),
                   entries := [otherRow, keepRow]\<rparr>,
         [0, 1, 0, 0, 1])"
  by (simp add: buildStatements_def sweepValidated_def crowdedDb_def sharedDb_def exEnv_def
      otherRow_def keepRow_def goneRow_def hasMonth_def hasUser_def hasCategory_def isMonth_def
      isEntry_def bump_def)

lemma sweep_run:
  "outcome (handlePostMonthly exEnv crowdedDb ''u1'' (Some sweepBody)) =
     Returned \<lparr>status = 200, payload = SaveResponse ''2026-02'' 2
        \<lparr>created_entries = 0, updated_entries = 1, deleted_entries = 2,
         upserted_daily_budgets = 0, deleted_daily_budgets = 0\<rparr>\<rparr>
   \<and> entries (database (handlePostMonthly exEnv crowdedDb ''u1'' (Some sweepBody)))
       = [otherRow, keepRow]"
proof -
  let ?req = "\<lparr>sr_month_key = ''2026-02'', sr_expected_version = 1, sr_ops = sweepOps\<rparr>"
  have editable: "sr_month_key ?req \<in> set (getEditableMonthKeys exEnv)"
    by (simp add: exEnv_keys)
  have ops: "validateOps exEnv (sr_month_key ?req) (sr_ops ?req) = Inr sweepValidated"
    by (simp add: sweep_ops)
  have some: "totalOps sweepValidated \<noteq> 0"
    by (simp add: totalOps_def sweepValidated_def)
  have cats: "\<forall>c \<in> set (allCategoryIds sweepValidated).
      c \<in> set (selectCategoryIds crowdedDb ''u1'')"
    by (simp add: allCategoryIds_def setAdd_def selectCategoryIds_def crowdedDb_def sharedDb_def
        sweepValidated_def)
  have ran: "batch (buildStatements (nowIso exEnv) ''u1'' (sr_month_key ?req)
               (sr_expected_version ?req) sweepValidated) crowdedDb =
             Some (crowdedDb\<lparr>months := map (bump ''2026-02-15 10:00:00'' ''u1'' ''2026-02'' 1)
                          (months crowdedDb),
                   entries := [otherRow, keepRow]\<rparr>, [0, 1, 0, 0, 1])"
    by (simp add: sweep_batch)
  from handle_batch [OF sweep_valid editable ops some cats ran] show ?thesis
    by (simp add: jsonResponse_def appliedOf_def plusOne_def sweepValidated_def)
qed

lemma insertedIds_append: "insertedIds (xs @ ys) = insertedIds xs @ insertedIds ys"
  by (induction xs rule: insertedIds.induct) simp_all

lemma insertedIds_inserts:
  "insertedIds (map (\<lambda>e. InsertEntry (f e) u mk (d e) (t e) (a e) (c e) (m e) (p e) now now') es)
     = map f es"
  by (induction es) simp_all

lemma insertedIds_updates:
  "insertedIds (map (\<lambda>e. UpdateEntryRow (d e) (t e) (a e) (c e) (m e) (p e) now (i e) u mk) es) = []"
  by (induction es) simp_all

lemma insertedIds_deletes: "insertedIds (map (\<lambda>i. DeleteEntryRow i u mk) es) = []"
  by (induction es) simp_all

lemma insertedIds_upserts:
  "insertedIds (map (\<lambda>e. UpsertBudget u mk (d e) (v e) now now') es) = []"
  by (induction es) simp_all

lemma insertedIds_budget_deletes: "insertedIds (map (\<lambda>d. DeleteBudget u mk d) es) = []"
  by (induction es) simp_all

lemma insertedIds_build:
  "insertedIds (buildStatements now u mk ev v) = map ce_entry_id (createEntries v)"
  by (simp add: buildStatements_def insertedIds_append insertedIds_inserts insertedIds_updates
      insertedIds_deletes insertedIds_upserts insertedIds_budget_deletes)

lemma validateEach_nth:
  "validateEach f xs = Inr ws \<Longrightarrow>
   length ws = length xs \<and> (\<forall>j < length xs. f (xs ! j) = Inr (ws ! j))"
proof (induction xs arbitrary: ws)
  case Nil
  then show ?case by simp
next
  case (Cons x xs)
  from Cons.prems obtain w where w: "f x = Inr w" by (cases "f x") simp_all
  with Cons.prems obtain ws' where ws': "validateEach f xs = Inr ws'" and ws: "ws = w # ws'"
    by (cases "validateEach f xs") auto
  from Cons.IH [OF ws'] w show ?case
    by (auto simp: ws nth_Cons')
qed

lemma needsId_iff:
  assumes "validateCreateEntry e mk = Inr w"
  shows "needsId w = idAbsentOrEmpty e"
    and "ce_entry_id w = stringOrNull (getProp e ''entry_id'')"
proof -
  from validateCreateEntry_Inr [OF assms]
  have ok: "\<not> entryIdViolation e" and id: "ce_entry_id w = stringOrNull (getProp e ''entry_id'')"
    by simp_all
  from ok id show "needsId w = idAbsentOrEmpty e"
    by (cases "getProp e ''entry_id''"; cases "the (getProp e ''entry_id'')")
       (auto simp: idAbsentOrEmpty_def needsId_def entryIdViolation_def)
  from id show "ce_entry_id w = stringOrNull (getProp e ''entry_id'')" .
qed

lemma count_take:
  "length xs = length ys \<Longrightarrow> \<forall>j < length xs. P (xs ! j) = Q (ys ! j) \<Longrightarrow>
   length (filter P (take n xs)) = length (filter Q (take n ys))"
proof (induction xs ys arbitrary: n rule: list_induct2)
  case Nil
  then show ?case by simp
next
  case (Cons x xs y ys)
  from Cons.prems have head: "P x = Q y" and tail: "\<forall>j < length xs. P (xs ! j) = Q (ys ! j)"
    by auto
  show ?case
  proof (cases n)
    case 0
    then show ?thesis by simp
  next
    case (Suc m)
    with Cons.IH [OF tail, of m] head show ?thesis by simp
  qed
qed

lemma createLoop_request_ids:
  assumes loop: "createLoop env 0 mk es = Inr vs"
  shows "map ce_entry_id vs =
     map (\<lambda>j. if idAbsentOrEmpty (es ! j)
               then Some (randomUUID env (length (filter idAbsentOrEmpty (take j es))))
               else stringOrNull (getProp (es ! j) ''entry_id'')) [0..<length es]"
proof -
  from createLoop_ids [OF loop] obtain ws where
    ws: "validateEach (\<lambda>e. validateCreateEntry e mk) es = Inr ws" "length vs = length ws"
      "\<forall>j < length ws. vs ! j =
            (if needsId (ws ! j)
             then (ws ! j)\<lparr>ce_entry_id := Some (randomUUID env (0 + length (filter needsId (take j ws))))\<rparr>
             else ws ! j)"
    by blast
  from validateEach_nth [OF ws(1)] have len: "length ws = length es"
    and each: "\<forall>j < length es. validateCreateEntry (es ! j) mk = Inr (ws ! j)"
    by simp_all
  have same: "\<forall>j < length ws. needsId (ws ! j) = idAbsentOrEmpty (es ! j)"
    using each len needsId_iff(1) by auto
  show ?thesis
  proof (rule nth_equalityI)
    show "length (map ce_entry_id vs) = length (map (\<lambda>j. if idAbsentOrEmpty (es ! j)
               then Some (randomUUID env (length (filter idAbsentOrEmpty (take j es))))
               else stringOrNull (getProp (es ! j) ''entry_id'')) [0..<length es])"
      by (simp add: ws(2) len)
  next
    fix j
    assume "j < length (map ce_entry_id vs)"
    then have j: "j < length ws" "j < length es" "j < length vs"
      by (simp_all add: ws(2) len)
    from j ws(3) have v: "vs ! j =
            (if needsId (ws ! j)
             then (ws ! j)\<lparr>ce_entry_id := Some (randomUUID env (length (filter needsId (take j ws))))\<rparr>
             else ws ! j)"
      by simp
    from j same have n: "needsId (ws ! j) = idAbsentOrEmpty (es ! j)" by simp
    from count_take [OF len same, of j]
    have c: "length (filter needsId (take j ws)) = length (filter idAbsentOrEmpty (take j es))" .
    from j each needsId_iff(2)
    have i: "ce_entry_id (ws ! j) = stringOrNull (getProp (es ! j) ''entry_id'')"
      by auto
    from j v n c i show "map ce_entry_id vs ! j = map (\<lambda>j. if idAbsentOrEmpty (es ! j)
               then Some (randomUUID env (length (filter idAbsentOrEmpty (take j es))))
               else stringOrNull (getProp (es ! j) ''entry_id'')) [0..<length es] ! j"
      by simp
  qed
qed

lemma saveValidated_not_reject: "saveValidated env db u req v \<noteq> reject db st msg"
proof -
  consider
    (noop) "saveValidated env db u req v =
       \<lparr>outcome = Returned (jsonResponse 200
              (SaveResponse (sr_month_key req) (sr_expected_version req) noApplied)),
        database = db, calls = []\<rparr>"
  | (cat) cid where "saveValidated env db u req v =
         \<lparr>outcome = Returned (errorResponse 400 (''Invalid category_id: '' @ cid)),
          database = db, calls = [CategoryQuery u]\<rparr>"
  | (run) issued where "saveValidated env db u req v = applyBatch env db u req v issued"
    using saveValidated_cases [of env db u req v] by blast
  then show ?thesis
  proof cases
    case noop
    then show ?thesis by (simp add: reject_def jsonResponse_def errorResponse_def)
  next
    case cat
    then show ?thesis by (simp add: reject_def)
  next
    case run
    have "calls (applyBatch env db u req v issued) \<noteq> []"
      by (simp add: applyBatch_calls)
    with run show ?thesis by (auto simp: reject_def)
  qed
qed

lemma keys_uuid: "getEditableMonthKeys (env\<lparr>randomUUID := g\<rparr>) = getEditableMonthKeys env"
  by (simp add: getEditableMonthKeys_def monthKeyAt_def)

lemma handle_reject_uuid:
  "(handlePostMonthly (env\<lparr>randomUUID := g\<rparr>) db u request = reject db st msg)
   = (handlePostMonthly env db u request = reject db st msg)"
proof (cases request)
  case None
  then show ?thesis by (simp add: handlePostMonthly_def)
next
  case (Some b)
  show ?thesis
  proof (cases "validateBody b")
    case (Inl m)
    with Some show ?thesis by (simp add: handlePostMonthly_def)
  next
    case (Inr req)
    show ?thesis
    proof (cases "sr_month_key req \<in> set (getEditableMonthKeys env)")
      case False
      with Some Inr show ?thesis by (simp add: handlePostMonthly_def keys_uuid)
    next
      case True
      then have True': "sr_month_key req \<in> set (getEditableMonthKeys (env\<lparr>randomUUID := g\<rparr>))"
        by (simp add: keys_uuid)
      show ?thesis
      proof (cases "validateOps env (sr_month_key req) (sr_ops req)")
        case (Inl m)
        with validateOps_Inl_env [of env "sr_month_key req" "sr_ops req" m "env\<lparr>randomUUID := g\<rparr>"]
        have "validateOps (env\<lparr>randomUUID := g\<rparr>) (sr_month_key req) (sr_ops req) = Inl m"
          by simp
        from handle_invalid_ops [OF Inr True' this, of db u] handle_invalid_ops [OF Inr True Inl, of db u]
          Some show ?thesis by simp
      next
        case v: (Inr v)
        obtain v' where v': "validateOps (env\<lparr>randomUUID := g\<rparr>) (sr_month_key req) (sr_ops req) = Inr v'"
        proof (cases "validateOps (env\<lparr>randomUUID := g\<rparr>) (sr_month_key req) (sr_ops req)")
          case (Inl m)
          with validateOps_Inl_env [of env "sr_month_key req" "sr_ops req" m "env\<lparr>randomUUID := g\<rparr>"] v
          show ?thesis by simp
        next
          case (Inr a)
          then show ?thesis by (rule that)
        qed
        from handle_valid [OF Inr True' v', of db u] handle_valid [OF Inr True v, of db u] Some
        show ?thesis by (simp add: saveValidated_not_reject)
      qed
    qed
  qed
qed

lemma ids_valid:
  "validateBody idsBody =
     Inr \<lparr>sr_month_key = ''2026-02'', sr_expected_version = 0, sr_ops = idsOps\<rparr>"
  by (simp add: idsBody_def idsOps_def body_defs)

lemma ids_batch:
  "\<exists>db'. batch (buildStatements (nowIso exEnv) ''u1'' ''2026-02'' 0 idsValidated) exDb
           = Some (db', [1, 1, 1, 1, 1])
        \<and> map e_entry_id (entries db') = [''uuid-0'', ''mine'', ''uuid-1'']"
  by (simp add: buildStatements_def idsValidated_def groceriesEntry_def exDb_def
      exEnv_def hasMonth_def hasUser_def hasCategory_def isMonth_def bump_def)

section \<open>The claims\<close>

text \<open>C3: a request that passes validation and the range check and whose five validated
  lists hold no operation at all is answered at once: status 200, \<open>new_version\<close> equal to
  \<open>expected_version\<close>, the five applied counts 0, the database as it was and no call to
  the database (no month row, no guard, no category lookup).\<close>

theorem noop_save:
  assumes "validateBody b = Inr req"
    and "sr_month_key req \<in> set (getEditableMonthKeys env)"
    and "validateOps env (sr_month_key req) (sr_ops req) = Inr v"
    and "totalOps v = 0"
  shows "handlePostMonthly env db u (Some b) =
     \<lparr>outcome = Returned \<lparr>status = 200,
         payload = SaveResponse (sr_month_key req) (sr_expected_version req)
           \<lparr>created_entries = 0, updated_entries = 0, deleted_entries = 0,
            upserted_daily_budgets = 0, deleted_daily_budgets = 0\<rparr>\<rparr>,
      database = db, calls = []\<rparr>"
  using assms by (simp add: handle_valid saveValidated_def jsonResponse_def noApplied_def)

theorem noop_save_witness:
  "handlePostMonthly exEnv exDb ''u1'' (Some noopBody) =
     \<lparr>outcome = Returned \<lparr>status = 200,
         payload = SaveResponse ''2026-02'' 3
           \<lparr>created_entries = 0, updated_entries = 0, deleted_entries = 0,
            upserted_daily_budgets = 0, deleted_daily_budgets = 0\<rparr>\<rparr>,
      database = exDb, calls = []\<rparr>"
proof -
  let ?req = "\<lparr>sr_month_key = ''2026-02'', sr_expected_version = 3, sr_ops = JObj []\<rparr>"
  let ?v = "\<lparr>createEntries = [], updateEntries = [], deleteEntryIds = [],
             upsertDailyBudgets = [], deleteDailyBudgetDates = []\<rparr>"
  have editable: "sr_month_key ?req \<in> set (getEditableMonthKeys exEnv)"
    by (simp add: exEnv_keys)
  have ops: "validateOps exEnv (sr_month_key ?req) (sr_ops ?req) = Inr ?v"
    by (simp add: noop_ops)
  have none: "totalOps ?v = 0"
    by (simp add: totalOps_def)
  show ?thesis
    using noop_save [OF noopBody_valid editable ops none, of exDb "''u1''"] by simp
qed

text \<open>C9: when the handler answers 200, each of the five applied counts of the response
  is the length of the corresponding validated list, and that is the length of the array
  the request gave, whatever the database holds: no count reads the rows a statement
  changed.\<close>

theorem applied_counts:
  assumes "validateBody b = Inr req"
    and "validateOps env (sr_month_key req) (sr_ops req) = Inr v"
    and "outcome (handlePostMonthly env db u (Some b)) = Returned r"
    and "status r = 200"
  shows "(\<exists>nv. payload r = SaveResponse (sr_month_key req) nv
            \<lparr>created_entries = length (createEntries v),
             updated_entries = length (updateEntries v),
             deleted_entries = length (deleteEntryIds v),
             upserted_daily_budgets = length (upsertDailyBudgets v),
             deleted_daily_budgets = length (deleteDailyBudgetDates v)\<rparr>)
       \<and> (\<forall>xs. getProp (sr_ops req) ''create_entries'' = Some (JArr xs)
              \<longrightarrow> length (createEntries v) = length xs)
       \<and> (\<forall>xs. getProp (sr_ops req) ''update_entries'' = Some (JArr xs)
              \<longrightarrow> length (updateEntries v) = length xs)
       \<and> (\<forall>xs. getProp (sr_ops req) ''delete_entry_ids'' = Some (JArr xs)
              \<longrightarrow> length (deleteEntryIds v) = length xs)
       \<and> (\<forall>xs. getProp (sr_ops req) ''upsert_daily_budgets'' = Some (JArr xs)
              \<longrightarrow> length (upsertDailyBudgets v) = length xs)
       \<and> (\<forall>xs. getProp (sr_ops req) ''delete_daily_budget_dates'' = Some (JArr xs)
              \<longrightarrow> length (deleteDailyBudgetDates v) = length xs)"
proof -
  have editable: "sr_month_key req \<in> set (getEditableMonthKeys env)"
  proof (rule ccontr)
    assume "sr_month_key req \<notin> set (getEditableMonthKeys env)"
    from handle_readonly [OF assms(1) this, of db u] assms(3,4) show False
      by (auto simp: reject_def errorResponse_def)
  qed
  from assms(3) have "outcome (saveValidated env db u req v) = Returned r"
    by (simp add: handle_valid [OF assms(1) editable assms(2)])
  from saveValidated_200 [OF this assms(4)]
  have counts: "\<exists>nv. payload r = SaveResponse (sr_month_key req) nv (appliedOf v)" .
  from validateOps_Inr [OF assms(2)] obtain cs us ds bs dds where
    parts: "opsArray (sr_ops req) ''create_entries'' ''create_entries must be an array.'' = Inr cs"
      "createLoop env 0 (sr_month_key req) cs = Inr (createEntries v)"
      "opsArray (sr_ops req) ''update_entries'' ''update_entries must be an array.'' = Inr us"
      "validateEach (\<lambda>e. validateUpdateEntry e (sr_month_key req)) us = Inr (updateEntries v)"
      "opsArray (sr_ops req) ''delete_entry_ids'' ''delete_entry_ids must be an array.'' = Inr ds"
      "validateEach validateDeleteId ds = Inr (deleteEntryIds v)"
      "opsArray (sr_ops req) ''upsert_daily_budgets'' ''upsert_daily_budgets must be an array.'' = Inr bs"
      "validateEach (\<lambda>d. validateUpsertDailyBudget d (sr_month_key req)) bs = Inr (upsertDailyBudgets v)"
      "opsArray (sr_ops req) ''delete_daily_budget_dates'' ''delete_daily_budget_dates must be an array.'' = Inr dds"
      "validateEach (validateDeleteDate (sr_month_key req)) dds = Inr (deleteDailyBudgetDates v)"
    by blast
  have c1: "\<forall>xs. getProp (sr_ops req) ''create_entries'' = Some (JArr xs)
              \<longrightarrow> length (createEntries v) = length xs"
    using parts(1) createLoop_length [OF parts(2)] by (auto simp: opsArray_JArr)
  have c2: "\<forall>xs. getProp (sr_ops req) ''update_entries'' = Some (JArr xs)
              \<longrightarrow> length (updateEntries v) = length xs"
    using parts(3) validateEach_length [OF parts(4)] by (auto simp: opsArray_JArr)
  have c3: "\<forall>xs. getProp (sr_ops req) ''delete_entry_ids'' = Some (JArr xs)
              \<longrightarrow> length (deleteEntryIds v) = length xs"
    using parts(5) validateEach_length [OF parts(6)] by (auto simp: opsArray_JArr)
  have c4: "\<forall>xs. getProp (sr_ops req) ''upsert_daily_budgets'' = Some (JArr xs)
              \<longrightarrow> length (upsertDailyBudgets v) = length xs"
    using parts(7) validateEach_length [OF parts(8)] by (auto simp: opsArray_JArr)
  have c5: "\<forall>xs. getProp (sr_ops req) ''delete_daily_budget_dates'' = Some (JArr xs)
              \<longrightarrow> length (deleteDailyBudgetDates v) = length xs"
    using parts(9) validateEach_length [OF parts(10)] by (auto simp: opsArray_JArr)
  from counts have "\<exists>nv. payload r = SaveResponse (sr_month_key req) nv
            \<lparr>created_entries = length (createEntries v),
             updated_entries = length (updateEntries v),
             deleted_entries = length (deleteEntryIds v),
             upserted_daily_budgets = length (upsertDailyBudgets v),
             deleted_daily_budgets = length (deleteDailyBudgetDates v)\<rparr>"
    by (simp add: appliedOf_def)
  with c1 c2 c3 c4 c5 show ?thesis by blast
qed

text \<open>Deleting an entry id that no row has still counts 1 in \<open>deleted_entries\<close>.\<close>

theorem applied_counts_witness:
  "entries exDb = []
   \<and> outcome (handlePostMonthly exEnv exDb ''u1'' (Some ghostBody)) =
       Returned \<lparr>status = 200, payload = SaveResponse ''2026-02'' 1
        \<lparr>created_entries = 0, updated_entries = 0, deleted_entries = 1,
         upserted_daily_budgets = 0, deleted_daily_budgets = 0\<rparr>\<rparr>
   \<and> (\<exists>nv. SaveResponse ''2026-02'' 1
        \<lparr>created_entries = 0, updated_entries = 0, deleted_entries = 1,
         upserted_daily_budgets = 0, deleted_daily_budgets = 0\<rparr> =
        SaveResponse ''2026-02'' nv
        \<lparr>created_entries = 0, updated_entries = 0, deleted_entries = length [''ghost''],
         upserted_daily_budgets = 0, deleted_daily_budgets = 0\<rparr>)"
proof -
  let ?req = "\<lparr>sr_month_key = ''2026-02'', sr_expected_version = 0,
     sr_ops = JObj [(''delete_entry_ids'', JArr [JStr ''ghost''])]\<rparr>"
  let ?v = "\<lparr>createEntries = [], updateEntries = [], deleteEntryIds = [''ghost''],
          upsertDailyBudgets = [], deleteDailyBudgetDates = []\<rparr>"
  let ?r = "\<lparr>status = 200, payload = SaveResponse ''2026-02'' 1
        \<lparr>created_entries = 0, updated_entries = 0, deleted_entries = 1,
         upserted_daily_budgets = 0, deleted_daily_budgets = 0\<rparr>\<rparr>"
  have ops: "validateOps exEnv (sr_month_key ?req) (sr_ops ?req) = Inr ?v"
    by (simp add: ghost_ops)
  have out: "outcome (handlePostMonthly exEnv exDb ''u1'' (Some ghostBody)) = Returned ?r"
    by (simp add: ghost_run)
  have ok: "status ?r = 200" by simp
  show ?thesis
    using applied_counts [OF ghost_valid ops out ok] out by (simp add: exDb_def)
qed

text \<open>C7: for a request that passed validation and the range check: when no create and no
  update is left (no category id is referenced) the handler issues no category lookup;
  otherwise its first call to the database is the one category lookup, whatever the size
  of the batch, and no other lookup follows; and when a referenced category id is not among
  the user's categories the handler answers 400 naming such an id, after that lookup alone:
  no batch was issued, the database is as it was.\<close>

theorem category_check:
  assumes "validateBody b = Inr req"
    and "sr_month_key req \<in> set (getEditableMonthKeys env)"
    and "validateOps env (sr_month_key req) (sr_ops req) = Inr v"
  shows "(createEntries v = [] \<and> updateEntries v = []
            \<longrightarrow> filter isCategoryQuery (calls (handlePostMonthly env db u (Some b))) = [])
       \<and> (\<not> (createEntries v = [] \<and> updateEntries v = [])
            \<longrightarrow> (\<exists>rest. calls (handlePostMonthly env db u (Some b)) = CategoryQuery u # rest
                   \<and> filter isCategoryQuery rest = []))
       \<and> ((\<exists>c \<in> set (map ce_category_id (createEntries v)) \<union> set (map ue_category_id (updateEntries v)).
              c \<notin> set (selectCategoryIds db u))
            \<longrightarrow> (\<exists>c \<in> set (map ce_category_id (createEntries v)) \<union> set (map ue_category_id (updateEntries v)).
                   c \<notin> set (selectCategoryIds db u)
                   \<and> handlePostMonthly env db u (Some b) =
                       \<lparr>outcome = Returned (errorResponse 400 (''Invalid category_id: '' @ c)),
                        database = db, calls = [CategoryQuery u]\<rparr>))"
proof -
  let ?refs = "set (map ce_category_id (createEntries v)) \<union> set (map ue_category_id (updateEntries v))"
  have run: "handlePostMonthly env db u (Some b) = saveValidated env db u req v"
    by (rule handle_valid [OF assms])
  have empty: "(allCategoryIds v = []) = (createEntries v = [] \<and> updateEntries v = [])"
    using set_allCategoryIds [of v] by (metis Un_empty map_is_Nil_conv set_empty)
  have none: "filter isCategoryQuery (calls (saveValidated env db u req v)) = []"
    if "createEntries v = [] \<and> updateEntries v = []"
    using that empty by (simp add: saveValidated_def applyBatch_calls)
  have one: "\<exists>rest. calls (saveValidated env db u req v) = CategoryQuery u # rest
                   \<and> filter isCategoryQuery rest = []"
    if "\<not> (createEntries v = [] \<and> updateEntries v = [])"
  proof -
    from that have "totalOps v \<noteq> 0" by (auto simp: totalOps_def)
    with that empty show ?thesis
      by (auto simp: saveValidated_def applyBatch_calls split: option.splits)
  qed
  have missing: "\<exists>c \<in> ?refs. c \<notin> set (selectCategoryIds db u)
                   \<and> saveValidated env db u req v =
                       \<lparr>outcome = Returned (errorResponse 400 (''Invalid category_id: '' @ c)),
                        database = db, calls = [CategoryQuery u]\<rparr>"
    if "\<exists>c \<in> ?refs. c \<notin> set (selectCategoryIds db u)"
  proof -
    from that have ne: "\<not> (createEntries v = [] \<and> updateEntries v = [])" by auto
    then have tot: "totalOps v \<noteq> 0" by (auto simp: totalOps_def)
    from that have "find (\<lambda>cid. cid \<notin> set (selectCategoryIds db u)) (allCategoryIds v) \<noteq> None"
      unfolding find_None_iff set_allCategoryIds by blast
    then obtain c where f: "find (\<lambda>cid. cid \<notin> set (selectCategoryIds db u)) (allCategoryIds v) = Some c"
      by blast
    then have "c \<in> set (allCategoryIds v)" "c \<notin> set (selectCategoryIds db u)"
      by (auto simp: find_Some_iff)
    moreover have "saveValidated env db u req v =
        \<lparr>outcome = Returned (errorResponse 400 (''Invalid category_id: '' @ c)),
         database = db, calls = [CategoryQuery u]\<rparr>"
    proof -
      from ne empty have "allCategoryIds v \<noteq> []" by simp
      with f tot show ?thesis by (simp add: saveValidated_def)
    qed
    ultimately show ?thesis unfolding set_allCategoryIds by blast
  qed
  show ?thesis unfolding run using none one missing by blast
qed

theorem category_check_witness:
  "handlePostMonthly exEnv exDb ''u1'' (Some strayBody) =
     \<lparr>outcome = Returned (errorResponse 400 ''Invalid category_id: cat-999''),
      database = exDb, calls = [CategoryQuery ''u1'']\<rparr>
   \<and> selectCategoryIds exDb ''u1'' = [''cat-001'']"
proof -
  let ?req = "\<lparr>sr_month_key = ''2026-02'', sr_expected_version = 0,
     sr_ops = JObj [(''create_entries'', JArr [JObj [(''date'', JStr ''2026-02-05''),
              (''type'', JStr ''expense''), (''amount'', JNum 500),
              (''category_id'', JStr ''cat-999'')]])]\<rparr>"
  let ?v = "\<lparr>createEntries = [\<lparr>ce_entry_id = Some ''uuid-0'', ce_date = ''2026-02-05'',
             ce_type = ''expense'', ce_amount = 500, ce_category_id = ''cat-999'', ce_memo = None,
             ce_payment_method = None\<rparr>],
          updateEntries = [], deleteEntryIds = [],
          upsertDailyBudgets = [], deleteDailyBudgetDates = []\<rparr>"
  have editable: "sr_month_key ?req \<in> set (getEditableMonthKeys exEnv)"
    by (simp add: exEnv_keys)
  have ops: "validateOps exEnv (sr_month_key ?req) (sr_ops ?req) = Inr ?v"
    by (simp add: stray_ops)
  have cats: "selectCategoryIds exDb ''u1'' = [''cat-001'']"
    by (simp add: selectCategoryIds_def exDb_def)
  show ?thesis
    using category_check [OF stray_valid editable ops, of exDb "''u1''"] cats by simp
qed

text \<open>C2, as amended: when the batch of a save completes and its guard statement, the
  second one, has changed exactly one row, the handler answers 200 with the five applied
  counts and with \<open>new_version\<close> the sum \<open>expected_version + 1\<close> as doubles give it, which
  is \<open>expected_version + 1\<close> for every \<open>expected_version\<close> below \<open>2^53\<close>; the database is
  the one the batch left, and there the month holds the version \<open>expected_version + 1\<close>,
  where before it held \<open>expected_version\<close> (or had no row yet, with \<open>expected_version\<close>
  0).\<close>

theorem save_success:
  assumes body: "validateBody b = Inr req"
    and editable: "sr_month_key req \<in> set (getEditableMonthKeys env)"
    and ops: "validateOps env (sr_month_key req) (sr_ops req) = Inr v"
    and some: "totalOps v \<noteq> 0"
    and cats: "\<forall>c \<in> set (allCategoryIds v). c \<in> set (selectCategoryIds db u)"
    and ran: "batch (buildStatements (nowIso env) u (sr_month_key req) (sr_expected_version req) v) db
                = Some (db', rs)"
    and guard: "rs ! 1 = 1"
    and keyed: "monthsKeyed db"
  shows "outcome (handlePostMonthly env db u (Some b)) =
           Returned \<lparr>status = 200,
             payload = SaveResponse (sr_month_key req) (plusOne (sr_expected_version req))
               \<lparr>created_entries = length (createEntries v),
                updated_entries = length (updateEntries v),
                deleted_entries = length (deleteEntryIds v),
                upserted_daily_budgets = length (upsertDailyBudgets v),
                deleted_daily_budgets = length (deleteDailyBudgetDates v)\<rparr>\<rparr>
       \<and> (sr_expected_version req < 9007199254740992
            \<longrightarrow> plusOne (sr_expected_version req) = sr_expected_version req + 1)
       \<and> database (handlePostMonthly env db u (Some b)) = db'
       \<and> storedVersions db' u (sr_month_key req) = [sr_expected_version req + 1]
       \<and> (storedVersions db u (sr_month_key req) = [sr_expected_version req]
          \<or> storedVersions db u (sr_month_key req) = [] \<and> sr_expected_version req = 0)"
proof -
  from saveValidated_applies [OF some cats] obtain issued where
    "saveValidated env db u req v = applyBatch env db u req v issued"
    by blast
  with guard have "handlePostMonthly env db u (Some b) =
      \<lparr>outcome = Returned (jsonResponse 200
         (SaveResponse (sr_month_key req) (plusOne (sr_expected_version req)) (appliedOf v))),
       database = db',
       calls = issued @ [Batch (buildStatements (nowIso env) u (sr_month_key req)
                                 (sr_expected_version req) v)]\<rparr>"
    by (simp add: handle_valid [OF body editable ops] applyBatch_Some [OF ran])
  then have "outcome (handlePostMonthly env db u (Some b)) =
           Returned \<lparr>status = 200,
             payload = SaveResponse (sr_month_key req) (plusOne (sr_expected_version req))
               \<lparr>created_entries = length (createEntries v),
                updated_entries = length (updateEntries v),
                deleted_entries = length (deleteEntryIds v),
                upserted_daily_budgets = length (upsertDailyBudgets v),
                deleted_daily_budgets = length (deleteDailyBudgetDates v)\<rparr>\<rparr>"
    and "database (handlePostMonthly env db u (Some b)) = db'"
    by (simp_all add: jsonResponse_def appliedOf_def)
  moreover from validateBody_version [OF body]
  have "sr_expected_version req < 9007199254740992
            \<longrightarrow> plusOne (sr_expected_version req) = sr_expected_version req + 1"
    by (simp add: plusOne_def)
  ultimately show ?thesis using guard_versions [OF ran guard keyed] by blast
qed

theorem save_success_witness:
  "outcome (handlePostMonthly exEnv monthDb ''u1'' (Some (createBody 1))) =
     Returned \<lparr>status = 200, payload = SaveResponse ''2026-02'' 2
       \<lparr>created_entries = 1, updated_entries = 0, deleted_entries = 0,
        upserted_daily_budgets = 0, deleted_daily_budgets = 0\<rparr>\<rparr>
   \<and> storedVersions (database (handlePostMonthly exEnv monthDb ''u1'' (Some (createBody 1))))
        ''u1'' ''2026-02'' = [2]
   \<and> storedVersions monthDb ''u1'' ''2026-02'' = [1]"
proof -
  let ?req = "\<lparr>sr_month_key = ''2026-02'', sr_expected_version = 1,
     sr_ops = JObj [(''create_entries'', JArr [groceries])]\<rparr>"
  let ?v = "\<lparr>createEntries = [groceriesEntry], updateEntries = [], deleteEntryIds = [],
          upsertDailyBudgets = [], deleteDailyBudgetDates = []\<rparr>"
  let ?db = "monthDb\<lparr>months := [bump ''2026-02-15 10:00:00'' ''u1'' ''2026-02'' 1
             \<lparr>m_user_id = ''u1'', m_month_key = ''2026-02'', m_version = 1,
              m_monthly_budget = None, m_cutoff_type = ''calendar'', m_cutoff_day = None,
              m_updated_at = ''2026-02-01 09:00:00''\<rparr>],
           entries := [groceriesRow]\<rparr>"
  have editable: "sr_month_key ?req \<in> set (getEditableMonthKeys exEnv)"
    by (simp add: exEnv_keys)
  have ops: "validateOps exEnv (sr_month_key ?req) (sr_ops ?req) = Inr ?v"
    by (simp add: create_ops)
  have some: "totalOps ?v \<noteq> 0"
    by (simp add: totalOps_def)
  have cats: "\<forall>c \<in> set (allCategoryIds ?v). c \<in> set (selectCategoryIds monthDb ''u1'')"
    by (simp add: allCategoryIds_def setAdd_def groceriesEntry_def selectCategoryIds_def
        monthDb_def exDb_def)
  have ran: "batch (buildStatements (nowIso exEnv) ''u1'' (sr_month_key ?req)
               (sr_expected_version ?req) ?v) monthDb = Some (?db, [0, 1, 1])"
    by (simp add: create_batch)
  have guard: "[0, 1, 1] ! 1 = (1::nat)"
    by simp
  have keyed: "monthsKeyed monthDb"
    by (simp add: monthsKeyed_def monthDb_def)
  have "storedVersions monthDb ''u1'' ''2026-02'' = [1]"
    by (simp add: storedVersions_def monthDb_def isMonth_def)
  then show ?thesis
    using save_success [OF create_valid(1) editable ops some cats ran guard keyed]
    by (simp add: groceriesEntry_def plusOne_def)
qed

text \<open>C2 as stated fails where doubles stop counting by one: with the month stored at
  version \<open>2^53\<close> and that version expected, the guard changes its row and the stored
  version becomes \<open>2^53 + 1\<close>, but the response repeats \<open>2^53\<close> as \<open>new_version\<close>.\<close>

theorem version_beyond_doubles:
  "storedVersions bigDb ''u1'' ''2026-02'' = [9007199254740992]
   \<and> validateBody (createBody 9007199254740992) =
       Inr \<lparr>sr_month_key = ''2026-02'', sr_expected_version = 9007199254740992,
            sr_ops = JObj [(''create_entries'', JArr [groceries])]\<rparr>
   \<and> outcome (handlePostMonthly exEnv bigDb ''u1'' (Some (createBody 9007199254740992))) =
       Returned \<lparr>status = 200, payload = SaveResponse ''2026-02'' 9007199254740992
         \<lparr>created_entries = 1, updated_entries = 0, deleted_entries = 0,
          upserted_daily_budgets = 0, deleted_daily_budgets = 0\<rparr>\<rparr>
   \<and> storedVersions
        (database (handlePostMonthly exEnv bigDb ''u1'' (Some (createBody 9007199254740992))))
        ''u1'' ''2026-02'' = [9007199254740993]"
proof -
  let ?req = "\<lparr>sr_month_key = ''2026-02'', sr_expected_version = 9007199254740992,
     sr_ops = JObj [(''create_entries'', JArr [groceries])]\<rparr>"
  let ?v = "\<lparr>createEntries = [groceriesEntry], updateEntries = [], deleteEntryIds = [],
          upsertDailyBudgets = [], deleteDailyBudgetDates = []\<rparr>"
  have editable: "sr_month_key ?req \<in> set (getEditableMonthKeys exEnv)"
    by (simp add: exEnv_keys)
  have ops: "validateOps exEnv (sr_month_key ?req) (sr_ops ?req) = Inr ?v"
    by (simp add: create_ops)
  have some: "totalOps ?v \<noteq> 0"
    by (simp add: totalOps_def)
  have cats: "\<forall>c \<in> set (allCategoryIds ?v). c \<in> set (selectCategoryIds bigDb ''u1'')"
    by (simp add: allCategoryIds_def setAdd_def groceriesEntry_def selectCategoryIds_def
        bigDb_def exDb_def)
  have ran: "batch (buildStatements (nowIso exEnv) ''u1'' (sr_month_key ?req)
               (sr_expected_version ?req) ?v) bigDb =
             Some (bigDb\<lparr>months := [\<lparr>m_user_id = ''u1'', m_month_key = ''2026-02'',
                m_version = 9007199254740993, m_monthly_budget = None,
                m_cutoff_type = ''calendar'', m_cutoff_day = None,
                m_updated_at = ''2026-02-15 10:00:00''\<rparr>],
              entries := [groceriesRow]\<rparr>, [0, 1, 1])"
    by (simp add: big_batch)
  have "storedVersions bigDb ''u1'' ''2026-02'' = [9007199254740992]"
    by (simp add: storedVersions_def bigDb_def isMonth_def)
  with handle_batch [OF big_valid editable ops some cats ran] big_valid show ?thesis
    by (simp add: jsonResponse_def appliedOf_def plusOne_def storedVersions_def isMonth_def
        groceriesEntry_def)
qed

text \<open>C1, on the code: the month is at version 1 and the request still expects version 0.
  The guard changes no row and the handler answers 409, but the batch has been committed:
  the entry of the request is in the database.\<close>

theorem conflict_keeps_entry:
  "outcome (handlePostMonthly exEnv monthDb ''u1'' (Some (createBody 0))) =
     Returned \<lparr>status = 409,
       payload = ConflictBody ''Conflict'' ''Please fetch latest and re-apply changes.''\<rparr>
   \<and> storedVersions (database (handlePostMonthly exEnv monthDb ''u1'' (Some (createBody 0))))
        ''u1'' ''2026-02'' = [1]
   \<and> entries monthDb = []
   \<and> entries (database (handlePostMonthly exEnv monthDb ''u1'' (Some (createBody 0)))) =
        [groceriesRow]"
proof -
  let ?req = "\<lparr>sr_month_key = ''2026-02'', sr_expected_version = 0,
     sr_ops = JObj [(''create_entries'', JArr [groceries])]\<rparr>"
  let ?v = "\<lparr>createEntries = [groceriesEntry], updateEntries = [], deleteEntryIds = [],
          upsertDailyBudgets = [], deleteDailyBudgetDates = []\<rparr>"
  let ?db = "monthDb\<lparr>months := [bump ''2026-02-15 10:00:00'' ''u1'' ''2026-02'' 0
             \<lparr>m_user_id = ''u1'', m_month_key = ''2026-02'', m_version = 1,
              m_monthly_budget = None, m_cutoff_type = ''calendar'', m_cutoff_day = None,
              m_updated_at = ''2026-02-01 09:00:00''\<rparr>],
           entries := [groceriesRow]\<rparr>"
  have editable: "sr_month_key ?req \<in> set (getEditableMonthKeys exEnv)"
    by (simp add: exEnv_keys)
  have ops: "validateOps exEnv (sr_month_key ?req) (sr_ops ?req) = Inr ?v"
    by (simp add: create_ops)
  have some: "totalOps ?v \<noteq> 0"
    by (simp add: totalOps_def)
  have cats: "\<forall>c \<in> set (allCategoryIds ?v). c \<in> set (selectCategoryIds monthDb ''u1'')"
    by (simp add: allCategoryIds_def setAdd_def groceriesEntry_def selectCategoryIds_def
        monthDb_def exDb_def)
  have ran: "batch (buildStatements (nowIso exEnv) ''u1'' (sr_month_key ?req)
               (sr_expected_version ?req) ?v) monthDb = Some (?db, [0, 0, 1])"
    by (simp add: create_batch)
  have guard: "[0, 0, 1] ! 1 = (0::nat)"
    by simp
  show ?thesis
    using conflict_commits [OF create_valid(2) editable ops some cats ran guard]
    by (simp add: conflictResponse_def jsonResponse_def storedVersions_def bump_def isMonth_def
        monthDb_def exDb_def)
qed

text \<open>C5: for a request whose body is valid, with the clock in a year after 99 and its
  month index from 0 to 11, the handler answers 403 "This month is read-only." (with the
  database untouched and no call to it) exactly when the month key of the request is not
  one of the six keys of the current month and the five months before it, compared as
  strings; no other response of the handler has status 403; and the day of the month of the
  clock changes nothing.\<close>

theorem readonly_month:
  assumes body: "validateBody b = Inr req"
    and clock: "0 \<le> nowMonth env" "nowMonth env \<le> 11" "99 < nowFullYear env"
  shows "((handlePostMonthly env db u (Some b) =
            \<lparr>outcome = Returned \<lparr>status = 403, payload = ErrorBody ''This month is read-only.''\<rparr>,
             database = db, calls = []\<rparr>)
          = (sr_month_key req \<notin> set (editableWindow (nowFullYear env) (nowMonth env + 1))))
       \<and> ((\<exists>r. outcome (handlePostMonthly env db u (Some b)) = Returned r \<and> status r = 403)
          = (sr_month_key req \<notin> set (editableWindow (nowFullYear env) (nowMonth env + 1))))
       \<and> handlePostMonthly (env\<lparr>nowDate := d\<rparr>) db u (Some b) = handlePostMonthly env db u (Some b)"
proof -
  let ?run = "handlePostMonthly env db u (Some b)"
  let ?readonly = "\<lparr>outcome = Returned \<lparr>status = 403, payload = ErrorBody ''This month is read-only.''\<rparr>,
             database = db, calls = []\<rparr>"
  have window: "editableWindow (nowFullYear env) (nowMonth env + 1) = getEditableMonthKeys env"
    by (simp add: keys_window [OF clock])
  have "(?run = ?readonly) = (sr_month_key req \<notin> set (getEditableMonthKeys env))
      \<and> ((\<exists>r. outcome ?run = Returned r \<and> status r = 403)
          = (sr_month_key req \<notin> set (getEditableMonthKeys env)))"
  proof (cases "sr_month_key req \<in> set (getEditableMonthKeys env)")
    case False
    from handle_readonly [OF body False, of db u] have "?run = ?readonly"
      by (simp add: reject_def errorResponse_def)
    with False show ?thesis by simp
  next
    case True
    have no403: "status r \<noteq> 403" if "outcome ?run = Returned r" for r
    proof (cases "validateOps env (sr_month_key req) (sr_ops req)")
      case (Inl msg)
      from handle_invalid_ops [OF body True Inl, of db u] that show ?thesis
        by (auto simp: reject_def errorResponse_def)
    next
      case (Inr v)
      from handle_valid [OF body True Inr, of db u] that
      have "outcome (saveValidated env db u req v) = Returned r" by simp
      from saveValidated_status [OF this] show ?thesis by auto
    qed
    then have "?run \<noteq> ?readonly" by force
    with True no403 show ?thesis by auto
  qed
  then show ?thesis by (simp add: window handle_day)
qed

theorem readonly_month_witness:
  "''2025-08'' \<notin> set (editableWindow 2026 2)
   \<and> editableWindow 2026 2 =
       [''2026-02'', ''2026-01'', ''2025-12'', ''2025-11'', ''2025-10'', ''2025-09'']
   \<and> handlePostMonthly exEnv exDb ''u1'' (Some oldBody) =
        \<lparr>outcome = Returned \<lparr>status = 403, payload = ErrorBody ''This month is read-only.''\<rparr>,
         database = exDb, calls = []\<rparr>"
proof -
  have clock: "0 \<le> nowMonth exEnv" "nowMonth exEnv \<le> 11" "99 < nowFullYear exEnv"
    by (simp_all add: exEnv_def)
  have y: "nowFullYear exEnv = 2026" and m: "nowMonth exEnv + 1 = 2"
    by (simp_all add: exEnv_def)
  from keys_window [OF clock] have window: "editableWindow 2026 2 =
       [''2026-02'', ''2026-01'', ''2025-12'', ''2025-11'', ''2025-10'', ''2025-09'']"
    by (simp only: y m exEnv_keys)
  show ?thesis
    using readonly_month [OF oldBody_valid clock, of exDb "''u1''"]
    by (simp add: y m window)
qed




text \<open>C4, as amended: when the handler answers 200 to a request with a valid body, every
  element of \<open>create_entries\<close>, \<open>update_entries\<close> and \<open>upsert_daily_budgets\<close> has a
  date, and every element of \<open>delete_daily_budget_dates\<close> is a date, that matches
  \<^verbatim>\<open>YYYY-MM-DD\<close>, has the year and the month of the request's month key, and has a day
  from 01 to 31. Whether the day exists in that month is not checked.\<close>

theorem accepted_dates:
  assumes body: "validateBody b = Inr req"
    and out: "outcome (handlePostMonthly env db u (Some b)) = Returned r"
    and ok: "status r = 200"
  shows "(\<forall>xs e. getProp (sr_ops req) ''create_entries'' = Some (JArr xs) \<and> e \<in> set xs
            \<longrightarrow> (\<exists>d. getProp e ''date'' = Some (JStr d) \<and> acceptedDate (sr_month_key req) d))
       \<and> (\<forall>xs e. getProp (sr_ops req) ''update_entries'' = Some (JArr xs) \<and> e \<in> set xs
            \<longrightarrow> (\<exists>d. getProp e ''date'' = Some (JStr d) \<and> acceptedDate (sr_month_key req) d))
       \<and> (\<forall>xs e. getProp (sr_ops req) ''upsert_daily_budgets'' = Some (JArr xs) \<and> e \<in> set xs
            \<longrightarrow> (\<exists>d. getProp e ''date'' = Some (JStr d) \<and> acceptedDate (sr_month_key req) d))
       \<and> (\<forall>xs j. getProp (sr_ops req) ''delete_daily_budget_dates'' = Some (JArr xs) \<and> j \<in> set xs
            \<longrightarrow> (\<exists>d. j = JStr d \<and> acceptedDate (sr_month_key req) d))"
proof -
  let ?mk = "sr_month_key req"
  note key = validateBody_month_key [OF body]
  from accepted_ops [OF body out ok] obtain v where "validateOps env ?mk (sr_ops req) = Inr v" ..
  from validateOps_Inr [OF this] obtain cs us ds bs dds where
    parts: "opsArray (sr_ops req) ''create_entries'' ''create_entries must be an array.'' = Inr cs"
      "createLoop env 0 ?mk cs = Inr (createEntries v)"
      "opsArray (sr_ops req) ''update_entries'' ''update_entries must be an array.'' = Inr us"
      "validateEach (\<lambda>e. validateUpdateEntry e ?mk) us = Inr (updateEntries v)"
      "opsArray (sr_ops req) ''upsert_daily_budgets'' ''upsert_daily_budgets must be an array.'' = Inr bs"
      "validateEach (\<lambda>d. validateUpsertDailyBudget d ?mk) bs = Inr (upsertDailyBudgets v)"
      "opsArray (sr_ops req) ''delete_daily_budget_dates'' ''delete_daily_budget_dates must be an array.'' = Inr dds"
      "validateEach (validateDeleteDate ?mk) dds = Inr (deleteDailyBudgetDates v)"
    by blast
  have creates: "\<exists>d. getProp e ''date'' = Some (JStr d) \<and> acceptedDate ?mk d"
    if "getProp (sr_ops req) ''create_entries'' = Some (JArr xs)" "e \<in> set xs" for xs e
  proof -
    from opsArray_same [OF parts(1) that(1)] that(2) have "e \<in> set cs" by simp
    from validateCreateEntry_date [OF createLoop_all [OF parts(2) this]] date_checks [OF key]
    show ?thesis by blast
  qed
  have updates: "\<exists>d. getProp e ''date'' = Some (JStr d) \<and> acceptedDate ?mk d"
    if "getProp (sr_ops req) ''update_entries'' = Some (JArr xs)" "e \<in> set xs" for xs e
  proof -
    from opsArray_same [OF parts(3) that(1)] that(2) have "e \<in> set us" by simp
    from validateUpdateEntry_date [OF validateEach_all [OF parts(4) this]] date_checks [OF key]
    show ?thesis by blast
  qed
  have upserts: "\<exists>d. getProp e ''date'' = Some (JStr d) \<and> acceptedDate ?mk d"
    if "getProp (sr_ops req) ''upsert_daily_budgets'' = Some (JArr xs)" "e \<in> set xs" for xs e
  proof -
    from opsArray_same [OF parts(5) that(1)] that(2) have "e \<in> set bs" by simp
    from validateUpsertDailyBudget_date [OF validateEach_all [OF parts(6) this]] date_checks [OF key]
    show ?thesis by blast
  qed
  have deletes: "\<exists>d. j = JStr d \<and> acceptedDate ?mk d"
    if "getProp (sr_ops req) ''delete_daily_budget_dates'' = Some (JArr xs)" "j \<in> set xs" for xs j
  proof -
    from opsArray_same [OF parts(7) that(1)] that(2) have "j \<in> set dds" by simp
    from validateDeleteDate_date [OF validateEach_all [OF parts(8) this]] date_checks [OF key]
    show ?thesis by blast
  qed
  from creates updates upserts deletes show ?thesis by blast
qed

text \<open>C4 as stated fails: with month key 2026-02 the handler accepts and stores an entry
  dated 2026-02-30, a day February 2026 does not have.\<close>

theorem february_30_accepted:
  "getProp febEntry ''date'' = Some (JStr ''2026-02-30'')
   \<and> \<not> inCalendarMonth ''2026-02-30'' ''2026-02''
   \<and> outcome (handlePostMonthly exEnv exDb ''u1'' (Some febBody)) =
       Returned \<lparr>status = 200, payload = SaveResponse ''2026-02'' 1
         \<lparr>created_entries = 1, updated_entries = 0, deleted_entries = 0,
          upserted_daily_budgets = 0, deleted_daily_budgets = 0\<rparr>\<rparr>
   \<and> map e_date (entries (database (handlePostMonthly exEnv exDb ''u1'' (Some febBody))))
       = [''2026-02-30'']"
  using feb_run feb_not_calendar by (simp add: febEntry_def)

theorem accepted_dates_witness:
  "outcome (handlePostMonthly exEnv exDb ''u1'' (Some febBody)) =
     Returned \<lparr>status = 200, payload = SaveResponse ''2026-02'' 1
         \<lparr>created_entries = 1, updated_entries = 0, deleted_entries = 0,
          upserted_daily_budgets = 0, deleted_daily_budgets = 0\<rparr>\<rparr>
   \<and> getProp febEntry ''date'' = Some (JStr ''2026-02-30'')
   \<and> acceptedDate ''2026-02'' ''2026-02-30''"
proof -
  let ?req = "\<lparr>sr_month_key = ''2026-02'', sr_expected_version = 0,
     sr_ops = JObj [(''create_entries'', JArr [febEntry])]\<rparr>"
  let ?r = "\<lparr>status = 200, payload = SaveResponse ''2026-02'' 1
         \<lparr>created_entries = 1, updated_entries = 0, deleted_entries = 0,
          upserted_daily_budgets = 0, deleted_daily_budgets = 0\<rparr>\<rparr>"
  have out: "outcome (handlePostMonthly exEnv exDb ''u1'' (Some febBody)) = Returned ?r"
    using feb_run by simp
  have ok: "status ?r = 200" by simp
  from accepted_dates [OF feb_valid out ok]
  have "\<forall>xs e. getProp (sr_ops ?req) ''create_entries'' = Some (JArr xs) \<and> e \<in> set xs
            \<longrightarrow> (\<exists>d. getProp e ''date'' = Some (JStr d) \<and> acceptedDate (sr_month_key ?req) d)"
    by blast
  from this [rule_format, of "[febEntry]" febEntry] out show ?thesis
    by (simp add: febEntry_def)
qed

text \<open>C8: a save by user \<open>u\<close> for month \<open>mk\<close> leaves every entry row of another user or
  of another month exactly as it was (the same rows in the same order), whatever entry ids
  the request lists; every statement of the batch the handler issues is bound to \<open>u\<close> and
  \<open>mk\<close>, and each update and each deletion of an entry also to an entry id the request
  lists: the ids these statements are bound to are, in order, the ids of the update
  elements followed by the ids to delete; and of the entry rows of \<open>u\<close> and \<open>mk\<close> those with an id the request does not
  list in its updates and deletions are kept as they were too, in their order, with only
  rows of \<open>u\<close> and \<open>mk\<close> added after them. When validation fails the database is as it
  was.\<close>

theorem foreign_entries_kept:
  assumes "validateBody b = Inr req"
  shows "filter (foreignEntry u (sr_month_key req))
           (entries (database (handlePostMonthly env db u (Some b))))
         = filter (foreignEntry u (sr_month_key req)) (entries db)
       \<and> (\<forall>ss. Batch ss \<in> set (calls (handlePostMonthly env db u (Some b)))
             \<longrightarrow> list_all (scopedTo u (sr_month_key req)) ss)
       \<and> (\<forall>v. validateOps env (sr_month_key req) (sr_ops req) = Inr v \<longrightarrow>
             (\<forall>ss. Batch ss \<in> set (calls (handlePostMonthly env db u (Some b)))
                \<longrightarrow> list_all (boundTo u (sr_month_key req) (listedIds v)) ss
                  \<and> touchedIds ss = listedIds v)
           \<and> (\<exists>added.
                 filter (outOfReach u (sr_month_key req) (listedIds v))
                   (entries (database (handlePostMonthly env db u (Some b))))
                 = filter (outOfReach u (sr_month_key req) (listedIds v)) (entries db) @ added
               \<and> list_all (ownEntry u (sr_month_key req)) added))
       \<and> (isl (validateOps env (sr_month_key req) (sr_ops req))
            \<longrightarrow> database (handlePostMonthly env db u (Some b)) = db)"
proof -
  let ?mk = "sr_month_key req"
  let ?run = "handlePostMonthly env db u (Some b)"
  have foreign: "filter (foreignEntry u ?mk) (entries (database ?run))
      = filter (foreignEntry u ?mk) (entries db)
    \<and> (\<forall>ss. Batch ss \<in> set (calls ?run) \<longrightarrow> list_all (scopedTo u ?mk) ss)"
    using handle_cases [OF assms, of env db u]
  proof
    assume "\<exists>st msg. ?run = reject db st msg"
    then show ?thesis by (auto simp: reject_def)
  next
    assume "\<exists>v. validateOps env ?mk (sr_ops req) = Inr v \<and> ?run = saveValidated env db u req v"
    then obtain v where run: "?run = saveValidated env db u req v"
      by blast
    have "filter (foreignEntry u ?mk) (entries (database (saveValidated env db u req v)))
         = filter (foreignEntry u ?mk) (entries db)"
      using saveValidated_database [of env db u req v]
    proof
      assume "database (saveValidated env db u req v) = db"
      then show ?thesis by simp
    next
      assume "\<exists>rs. batch (buildStatements (nowIso env) u ?mk (sr_expected_version req) v) db
                  = Some (database (saveValidated env db u req v), rs)"
      then obtain rs where "batch (buildStatements (nowIso env) u ?mk
                    (sr_expected_version req) v) db
                  = Some (database (saveValidated env db u req v), rs)" ..
      from batch_foreign [OF buildStatements_scoped this] show ?thesis .
    qed
    moreover have "\<forall>ss. Batch ss \<in> set (calls (saveValidated env db u req v))
             \<longrightarrow> list_all (scopedTo u ?mk) ss"
      using saveValidated_calls [of _ env db u req v] buildStatements_scoped by blast
    ultimately show ?thesis by (simp add: run)
  qed
  have listed: "(\<forall>ss. Batch ss \<in> set (calls ?run)
                \<longrightarrow> list_all (boundTo u ?mk (listedIds v)) ss \<and> touchedIds ss = listedIds v)
           \<and> (\<exists>added.
                 filter (outOfReach u ?mk (listedIds v)) (entries (database ?run))
                 = filter (outOfReach u ?mk (listedIds v)) (entries db) @ added
               \<and> list_all (ownEntry u ?mk) added)"
    if ops: "validateOps env ?mk (sr_ops req) = Inr v" for v
  proof -
    have "?run = saveValidated env db u req v \<or> ?run = reject db 403 ''This month is read-only.''"
      using handle_valid [OF assms _ ops, of db u] handle_readonly [OF assms, of env db u]
      by blast
    then show ?thesis
    proof
      assume "?run = reject db 403 ''This month is read-only.''"
      then show ?thesis by (simp add: reject_def)
    next
      assume run: "?run = saveValidated env db u req v"
      have "\<forall>ss. Batch ss \<in> set (calls (saveValidated env db u req v))
             \<longrightarrow> list_all (boundTo u ?mk (listedIds v)) ss \<and> touchedIds ss = listedIds v"
        using saveValidated_calls [of _ env db u req v] buildStatements_bound touchedIds_build
        by blast
      moreover have "\<exists>added.
                 filter (outOfReach u ?mk (listedIds v))
                   (entries (database (saveValidated env db u req v)))
                 = filter (outOfReach u ?mk (listedIds v)) (entries db) @ added
               \<and> list_all (ownEntry u ?mk) added"
        using saveValidated_database [of env db u req v]
      proof
        assume "database (saveValidated env db u req v) = db"
        then show ?thesis by simp
      next
        assume "\<exists>rs. batch (buildStatements (nowIso env) u ?mk (sr_expected_version req) v) db
                  = Some (database (saveValidated env db u req v), rs)"
        then obtain rs where "batch (buildStatements (nowIso env) u ?mk
                    (sr_expected_version req) v) db
                  = Some (database (saveValidated env db u req v), rs)" ..
        from batch_reach [OF buildStatements_bound this] show ?thesis .
      qed
      ultimately show ?thesis by (simp add: run)
    qed
  qed
  have failed: "database ?run = db" if "isl (validateOps env ?mk (sr_ops req))"
    using handle_cases [OF assms, of env db u] that by (auto simp: reject_def)
  from foreign listed failed show ?thesis by blast
qed

theorem foreign_entries_kept_witness:
  "outcome (handlePostMonthly exEnv crowdedDb ''u1'' (Some sweepBody)) =
     Returned \<lparr>status = 200, payload = SaveResponse ''2026-02'' 2
        \<lparr>created_entries = 0, updated_entries = 1, deleted_entries = 2,
         upserted_daily_budgets = 0, deleted_daily_budgets = 0\<rparr>\<rparr>
   \<and> listedIds sweepValidated = [''e-other'', ''e-other'', ''e-gone'']
   \<and> entries crowdedDb = [otherRow, keepRow, goneRow]
   \<and> filter (foreignEntry ''u1'' ''2026-02'') (entries crowdedDb) = [otherRow]
   \<and> filter (outOfReach ''u1'' ''2026-02'' (listedIds sweepValidated)) (entries crowdedDb)
       = [otherRow, keepRow]
   \<and> filter (foreignEntry ''u1'' ''2026-02'')
        (entries (database (handlePostMonthly exEnv crowdedDb ''u1'' (Some sweepBody))))
       = [otherRow]
   \<and> entries (database (handlePostMonthly exEnv crowdedDb ''u1'' (Some sweepBody)))
       = [otherRow, keepRow]"
proof -
  have "listedIds sweepValidated = [''e-other'', ''e-other'', ''e-gone'']"
    by (simp add: listedIds_def sweepValidated_def)
  moreover have "entries crowdedDb = [otherRow, keepRow, goneRow]"
    by (simp add: crowdedDb_def)
  moreover have "filter (foreignEntry ''u1'' ''2026-02'') [otherRow, keepRow, goneRow] = [otherRow]"
    by (simp add: foreignEntry_def otherRow_def keepRow_def goneRow_def)
  moreover have "filter (outOfReach ''u1'' ''2026-02'' [''e-other'', ''e-other'', ''e-gone''])
      [otherRow, keepRow, goneRow] = [otherRow, keepRow]"
    by (simp add: outOfReach_def otherRow_def keepRow_def goneRow_def)
  ultimately show ?thesis
    using foreign_entries_kept [OF sweep_valid, of "''u1''" exEnv crowdedDb] sweep_run
    by simp
qed

text \<open>C10: in a request that passed validation and the range check, with at least one
  create element and every referenced category known, the handler looks the categories up
  and issues one batch; the entry ids its insert statements bind are, element by element
  of \<open>create_entries\<close>, the element's own \<open>entry_id\<close> when that is a non-empty string and
  otherwise (absent, null or empty) the result of the next call of
  \<^verbatim>\<open>crypto.randomUUID()\<close>, the \<open>n\<close>-th such element getting the \<open>n\<close>-th result; when no
  result of \<^verbatim>\<open>randomUUID\<close> is empty no insert binds an empty id; the handler answers 200
  or 409 or fails in the batch, it does not reject the request; which requests the handler
  rejects before any database call, and with which status and message, does not depend on
  the results of \<^verbatim>\<open>randomUUID\<close>; and a create element that is valid but for an \<open>entry_id\<close>
  that is absent, null or empty passes its validation.\<close>

theorem fresh_entry_ids:
  assumes body: "validateBody b = Inr req"
    and editable: "sr_month_key req \<in> set (getEditableMonthKeys env)"
    and ops: "validateOps env (sr_month_key req) (sr_ops req) = Inr v"
    and arr: "getProp (sr_ops req) ''create_entries'' = Some (JArr es)"
    and some: "es \<noteq> []"
    and cats: "\<forall>c \<in> set (allCategoryIds v). c \<in> set (selectCategoryIds db u)"
  shows "(\<exists>ss. calls (handlePostMonthly env db u (Some b)) = [CategoryQuery u, Batch ss]
            \<and> insertedIds ss =
                map (\<lambda>j. if idAbsentOrEmpty (es ! j)
                          then Some (randomUUID env (length (filter idAbsentOrEmpty (take j es))))
                          else stringOrNull (getProp (es ! j) ''entry_id'')) [0..<length es]
            \<and> length (insertedIds ss) = length es
            \<and> ((\<forall>k. randomUUID env k \<noteq> []) \<longrightarrow> list_all insertHasId ss))
       \<and> (outcome (handlePostMonthly env db u (Some b)) = Thrown
          \<or> (\<exists>r. outcome (handlePostMonthly env db u (Some b)) = Returned r
                \<and> (status r = 200 \<or> status r = 409)))
       \<and> (\<forall>g st msg.
            (handlePostMonthly (env\<lparr>randomUUID := g\<rparr>) db u (Some b) = reject db st msg)
            = (handlePostMonthly env db u (Some b) = reject db st msg))
       \<and> (\<exists>ws. validateEach (\<lambda>e. validateCreateEntry e (sr_month_key req)) es = Inr ws
            \<and> length (createEntries v) = length ws
            \<and> (\<forall>j < length ws. createEntries v ! j =
                  (if needsId (ws ! j)
                   then (ws ! j)\<lparr>ce_entry_id :=
                          Some (randomUUID env (length (filter needsId (take j ws))))\<rparr>
                   else ws ! j)))
       \<and> (\<forall>env' ops' msg. (validateOps env (sr_month_key req) ops' = Inl msg)
                           = (validateOps env' (sr_month_key req) ops' = Inl msg))
       \<and> (\<forall>e. isObject (Some e) \<and> idAbsentOrEmpty e \<and> \<not> dateViolation e (sr_month_key req)
              \<and> \<not> typeViolation e \<and> \<not> amountViolation e \<and> \<not> categoryViolation e
              \<and> \<not> paymentViolation e
            \<longrightarrow> (\<exists>w. validateCreateEntry e (sr_month_key req) = Inr w \<and> needsId w))"
proof -
  let ?mk = "sr_month_key req"
  let ?run = "handlePostMonthly env db u (Some b)"
  let ?stmts = "buildStatements (nowIso env) u ?mk (sr_expected_version req) v"
  from validateOps_Inr [OF ops] obtain cs where
    "opsArray (sr_ops req) ''create_entries'' ''create_entries must be an array.'' = Inr cs"
    "createLoop env 0 ?mk cs = Inr (createEntries v)"
    by blast
  with opsArray_same [OF this(1) arr] have loop: "createLoop env 0 ?mk es = Inr (createEntries v)"
    by simp
  from createLoop_length [OF loop] some have creates: "createEntries v \<noteq> []"
    by auto
  then have total: "totalOps v \<noteq> 0"
    by (simp add: totalOps_def)
  from creates have refs: "allCategoryIds v \<noteq> []"
    using set_allCategoryIds [of v] by (cases "createEntries v") auto
  from cats have "find (\<lambda>cid. cid \<notin> set (selectCategoryIds db u)) (allCategoryIds v) = None"
    by (simp add: find_None_iff)
  with total refs have run: "?run = applyBatch env db u req v [CategoryQuery u]"
    by (simp add: handle_valid [OF body editable ops] saveValidated_def)
  have calls: "calls ?run = [CategoryQuery u, Batch ?stmts]"
    by (simp add: run applyBatch_calls)
  have ids: "insertedIds ?stmts =
                map (\<lambda>j. if idAbsentOrEmpty (es ! j)
                          then Some (randomUUID env (length (filter idAbsentOrEmpty (take j es))))
                          else stringOrNull (getProp (es ! j) ''entry_id'')) [0..<length es]"
    by (simp only: insertedIds_build createLoop_request_ids [OF loop])
  have count: "length (insertedIds ?stmts) = length es"
    by (simp add: insertedIds_build createLoop_length [OF loop])
  have filled: "list_all insertHasId ?stmts" if "\<forall>k. randomUUID env k \<noteq> []"
    using buildStatements_ids [OF createLoop_assigned [OF that loop]] .
  from calls ids count filled
  have batch: "\<exists>ss. calls ?run = [CategoryQuery u, Batch ss]
            \<and> insertedIds ss =
                map (\<lambda>j. if idAbsentOrEmpty (es ! j)
                          then Some (randomUUID env (length (filter idAbsentOrEmpty (take j es))))
                          else stringOrNull (getProp (es ! j) ''entry_id'')) [0..<length es]
            \<and> length (insertedIds ss) = length es
            \<and> ((\<forall>k. randomUUID env k \<noteq> []) \<longrightarrow> list_all insertHasId ss)"
    by blast
  have answered: "outcome ?run = Thrown
          \<or> (\<exists>r. outcome ?run = Returned r \<and> (status r = 200 \<or> status r = 409))"
  proof (cases "outcome ?run")
    case (Returned r)
    with applyBatch_status [of env db u req v "[CategoryQuery u]" r] run show ?thesis by simp
  next
    case Thrown
    then show ?thesis by simp
  qed
  have stable: "(handlePostMonthly (env\<lparr>randomUUID := g\<rparr>) db u (Some b) = reject db st msg)
            = (?run = reject db st msg)" for g st msg
    by (rule handle_reject_uuid)
  from createLoop_ids [OF loop]
  have assigned: "\<exists>ws. validateEach (\<lambda>e. validateCreateEntry e ?mk) es = Inr ws
            \<and> length (createEntries v) = length ws
            \<and> (\<forall>j < length ws. createEntries v ! j =
                  (if needsId (ws ! j)
                   then (ws ! j)\<lparr>ce_entry_id :=
                          Some (randomUUID env (length (filter needsId (take j ws))))\<rparr>
                   else ws ! j))"
    by (simp only: add_0)
  have same: "(validateOps env ?mk ops' = Inl msg) = (validateOps env' ?mk ops' = Inl msg)"
    for env' ops' msg
    by (rule validateOps_Inl_env)
  have passes: "\<exists>w. validateCreateEntry e ?mk = Inr w \<and> needsId w"
    if "isObject (Some e)" "idAbsentOrEmpty e" "\<not> dateViolation e ?mk" "\<not> typeViolation e"
      "\<not> amountViolation e" "\<not> categoryViolation e" "\<not> paymentViolation e" for e
  proof -
    from valid_element [OF that(1) idAbsentOrEmpty_ok [OF that(2)] that(3-7)]
    obtain w where "validateCreateEntry e ?mk = Inr w" ..
    with idAbsentOrEmpty_needsId [OF that(2) this] show ?thesis by blast
  qed
  from batch answered stable assigned same passes show ?thesis by blast
qed

theorem fresh_entry_ids_witness:
  "(\<exists>ss. calls (handlePostMonthly exEnv exDb ''u1'' (Some idsBody)) = [CategoryQuery ''u1'', Batch ss]
        \<and> insertedIds ss = [Some ''uuid-0'', Some ''mine'', Some ''uuid-1'']
        \<and> list_all insertHasId ss)
   \<and> outcome (handlePostMonthly exEnv exDb ''u1'' (Some idsBody)) =
       Returned \<lparr>status = 200, payload = SaveResponse ''2026-02'' 1
         \<lparr>created_entries = 3, updated_entries = 0, deleted_entries = 0,
          upserted_daily_budgets = 0, deleted_daily_budgets = 0\<rparr>\<rparr>
   \<and> map e_entry_id (entries (database (handlePostMonthly exEnv exDb ''u1'' (Some idsBody))))
       = [''uuid-0'', ''mine'', ''uuid-1'']"
proof -
  let ?req = "\<lparr>sr_month_key = ''2026-02'', sr_expected_version = 0, sr_ops = idsOps\<rparr>"
  let ?es = "[groceries,
     JObj [(''entry_id'', JStr ''mine''), (''date'', JStr ''2026-02-06''), (''type'', JStr ''income''),
           (''amount'', JNum 1200), (''category_id'', JStr ''cat-001'')],
     JObj [(''entry_id'', JStr ''''), (''date'', JStr ''2026-02-07''), (''type'', JStr ''expense''),
           (''amount'', JNum 80), (''category_id'', JStr ''cat-001'')]]"
  have editable: "sr_month_key ?req \<in> set (getEditableMonthKeys exEnv)"
    by (simp add: exEnv_keys)
  have ops: "validateOps exEnv (sr_month_key ?req) (sr_ops ?req) = Inr idsValidated"
    by (simp add: ids_ops)
  have arr: "getProp (sr_ops ?req) ''create_entries'' = Some (JArr ?es)"
    by (simp add: idsOps_def)
  have some: "?es \<noteq> []"
    by simp
  have total: "totalOps idsValidated \<noteq> 0"
    by (simp add: totalOps_def idsValidated_def)
  have cats: "\<forall>c \<in> set (allCategoryIds idsValidated). c \<in> set (selectCategoryIds exDb ''u1'')"
    by (simp add: allCategoryIds_def setAdd_def idsValidated_def groceriesEntry_def
        selectCategoryIds_def exDb_def)
  have uuid: "\<forall>k. randomUUID exEnv k \<noteq> []"
    by (simp add: exEnv_def)
  have given: "map (\<lambda>j. if idAbsentOrEmpty (?es ! j)
                          then Some (randomUUID exEnv (length (filter idAbsentOrEmpty (take j ?es))))
                          else stringOrNull (getProp (?es ! j) ''entry_id'')) [0..<length ?es]
      = [Some ''uuid-0'', Some ''mine'', Some ''uuid-1'']"
    by (simp add: upt_rec idAbsentOrEmpty_def groceries_def exEnv_def)
  from fresh_entry_ids [OF ids_valid editable ops arr some cats] uuid given
  have first: "\<exists>ss. calls (handlePostMonthly exEnv exDb ''u1'' (Some idsBody))
          = [CategoryQuery ''u1'', Batch ss]
        \<and> insertedIds ss = [Some ''uuid-0'', Some ''mine'', Some ''uuid-1'']
        \<and> list_all insertHasId ss"
    by auto
  from ids_batch obtain db' where
    ran: "batch (buildStatements (nowIso exEnv) ''u1'' (sr_month_key ?req)
            (sr_expected_version ?req) idsValidated) exDb = Some (db', [1, 1, 1, 1, 1])"
    and rows: "map e_entry_id (entries db') = [''uuid-0'', ''mine'', ''uuid-1'']"
    by auto
  from handle_batch [OF ids_valid editable ops total cats ran] rows
  have "outcome (handlePostMonthly exEnv exDb ''u1'' (Some idsBody)) =
       Returned \<lparr>status = 200, payload = SaveResponse ''2026-02'' 1
         \<lparr>created_entries = 3, updated_entries = 0, deleted_entries = 0,
          upserted_daily_budgets = 0, deleted_daily_budgets = 0\<rparr>\<rparr>
   \<and> map e_entry_id (entries (database (handlePostMonthly exEnv exDb ''u1'' (Some idsBody))))
       = [''uuid-0'', ''mine'', ''uuid-1'']"
    by (simp add: jsonResponse_def appliedOf_def plusOne_def idsValidated_def)
  with first show ?thesis by blast
qed

end
